theory Spec2Isabelle
  imports Complex_Main "HOL-Library.AList"
begin

section \<open>Shared vocabulary\<close>

text \<open>
  The Python exceptions that the modelled code can raise. A failed \<^verbatim>\<open>assert\<close> is
  \<open>AssertionError\<close>; \<^verbatim>\<open>list.index\<close> of an absent element is \<open>ValueError\<close>; indexing an
  empty list is \<open>IndexError\<close>; \<^verbatim>\<open>dct[key]\<close> on an absent key is \<open>KeyError\<close>; a method call
  on \<^verbatim>\<open>None\<close> or on an object without that method is \<open>AttributeError\<close>; \<^verbatim>\<open>"fitted " + None\<close>
  is \<open>TypeError\<close>; a float division by zero is \<open>ZeroDivisionError\<close>; reading a local
  variable that was never assigned is \<open>UnboundLocalError\<close>.
\<close>

datatype error =
  AssertionError | ValueError | IndexError | KeyError | AttributeError | TypeError
  | ZeroDivisionError | UnboundLocalError

text \<open>
  A method of a mutable object either returns a value or raises; in both cases the object is
  left in some state, and that state is part of the outcome.
\<close>

datatype ('a, 's) outcome = Raise error 's | Return 'a 's

section \<open>Data model\<close>

text \<open>
  Python is dynamically typed: an attribute that is assigned from a decoded JSON document holds
  whatever the document held. \<open>pyval\<close> is the universe of such values: \<open>None\<close>, booleans,
  numbers (integers and floats, idealised as reals), strings, lists, dictionaries in insertion
  order, and a reference to a fitter step object (the position of the step in the fitter's step
  list at the moment the reference was made).
\<close>

datatype pyval =
  PNone | PBool bool | PNum real | PStr string | PList "pyval list"
  | PDict "(string \<times> pyval) list" | PStep nat

text \<open>
  The attributes of a \<^verbatim>\<open>FitterStepAlign\<close> object
  (fitterstepalign.py, \<^verbatim>\<open>__init__\<close>, lines 58-64).
\<close>

record alignSettings =
  alignGroups :: pyval
  alignMarkers :: pyval
  rotation :: pyval
  scale :: pyval
  translation :: pyval

text \<open>
  A fitter step is a Config, an Align or a Fit step. The classes \<^verbatim>\<open>FitterStepConfig\<close>
  and \<^verbatim>\<open>FitterStepFit\<close> and their base class \<^verbatim>\<open>FitterStep\<close> are imported by
  fitter.py and are not among the sources; of the base class only the \<^verbatim>\<open>hasRun\<close> flag
  with its accessors \<^verbatim>\<open>hasRun()\<close> and \<^verbatim>\<open>setHasRun()\<close> is represented, and the Config
  and Fit steps carry no settings of their own here.
  \<^verbatim>\<open>isinstance(step, FitterStepConfig)\<close> is \<open>body step = FitterStepConfig\<close>.
\<close>

datatype stepBody = FitterStepConfig | FitterStepAlign alignSettings | FitterStepFit

record fitterStep =
  body :: stepBody
  hasRun :: bool

definition setHasRun :: "bool \<Rightarrow> fitterStep \<Rightarrow> fitterStep" where
  "setHasRun b step = step\<lparr>hasRun := b\<rparr>"

section \<open>Step pipeline\<close>

text \<open>
  \<^verbatim>\<open>Fitter.run\<close> and \<^verbatim>\<open>Fitter.load\<close> read and write the step list and call into the
  Zinc library and into the steps' own \<^verbatim>\<open>run\<close> methods. What those calls do to the region
  is not modelled; that they were made, and in which order, is recorded in a history of events:
  \<open>EvLoad\<close> for the rebuilding of the region in \<^verbatim>\<open>load\<close> (lines 217-231), and
  \<open>EvRun i arg\<close> for a call of \<^verbatim>\<open>self._fitterSteps[i].run(arg)\<close>, where \<open>arg\<close> is
  \<open>None\<close> or the pair of a file name stem and the index whose decimal digits the source appends
  to it. The pipeline state is the step list together with the history.
\<close>

datatype event = EvLoad | EvRun nat "(string \<times> nat) option"

type_synonym pipeline = "fitterStep list \<times> event list"

text \<open>
  Each of these calls can raise (a failed assertion on a Zinc result, for instance). A \<open>world\<close>
  says, for the history that ends with the call being made, whether the call raises and what.
\<close>

type_synonym world = "event list \<Rightarrow> error option"

text \<open>
  \<^verbatim>\<open>self._fitterSteps[index].run(arg)\<close>. \<^verbatim>\<open>FitterStepAlign.run\<close> sets the flag with
  \<^verbatim>\<open>self.setHasRun(True)\<close> as its last statement (fitterstepalign.py, line 197), so a run
  that raises leaves the flag as it was; the Config and Fit steps are taken to do the same.
\<close>

definition stepRun ::
  "world \<Rightarrow> nat \<Rightarrow> (string \<times> nat) option \<Rightarrow> pipeline \<Rightarrow> (unit, pipeline) outcome" where
  "stepRun w index arg p =
     (case p of (steps, hist) \<Rightarrow>
        let hist' = hist @ [EvRun index arg] in
        (case w hist' of
           Some e \<Rightarrow> Raise e (steps, hist')
         | None \<Rightarrow> Return () (steps[index := setHasRun True (steps ! index)], hist')))"

text \<open>
  \<^verbatim>\<open>Fitter.load\<close> (fitter.py, lines 212-234): the region is rebuilt from the model and data
  files, every step's flag is cleared, and the initial Config step is run.
\<close>

definition load :: "world \<Rightarrow> pipeline \<Rightarrow> (unit, pipeline) outcome" where
  "load w p =
     (case p of (steps, hist) \<Rightarrow>
        let hist' = hist @ [EvLoad] in
        (case w hist' of
           Some e \<Rightarrow> Raise e (steps, hist')
         | None \<Rightarrow>
             let steps' = map (setHasRun False) steps in
             if steps' = [] then Raise IndexError (steps', hist')
             else stepRun w 0 None (steps', hist')))"

text \<open>
  The argument \<^verbatim>\<open>modelFileNameStem + str(index) if modelFileNameStem else None\<close>: an empty
  stem is false in Python.
\<close>

definition stemArg :: "string option \<Rightarrow> nat \<Rightarrow> (string \<times> nat) option" where
  "stemArg modelFileNameStem index =
     (case modelFileNameStem of
        None \<Rightarrow> None
      | Some stem \<Rightarrow> if stem = [] then None else Some (stem, index))"

text \<open>The loop of lines 435-436: every step of the range is run.\<close>

fun replaySteps ::
  "world \<Rightarrow> string option \<Rightarrow> nat list \<Rightarrow> pipeline \<Rightarrow> (unit, pipeline) outcome" where
  "replaySteps w stem [] p = Return () p"
| "replaySteps w stem (index # rest) p =
     (case stepRun w index (stemArg stem index) p of
        Raise e p' \<Rightarrow> Raise e p'
      | Return _ p' \<Rightarrow> replaySteps w stem rest p')"

text \<open>The loop of lines 442-444: a step of the range is run when its flag is not set.\<close>

fun runRemainingSteps ::
  "world \<Rightarrow> string option \<Rightarrow> nat list \<Rightarrow> pipeline \<Rightarrow> (unit, pipeline) outcome" where
  "runRemainingSteps w stem [] p = Return () p"
| "runRemainingSteps w stem (index # rest) p =
     (if \<not> hasRun (fst p ! index) then
        (case stepRun w index (stemArg stem index) p of
           Raise e p' \<Rightarrow> Raise e p'
         | Return _ p' \<Rightarrow> runRemainingSteps w stem rest p')
      else runRemainingSteps w stem rest p)"

text \<open>
  Lines 428-430. A step object is named by its position in the list, so
  \<^verbatim>\<open>self._fitterSteps.index(endStep)\<close> is that position, or \<open>ValueError\<close> for a step
  that is not in the list; \<open>None\<close> stands for the last step, \<^verbatim>\<open>self._fitterSteps[-1]\<close>.
\<close>

definition endIndexOf :: "fitterStep list \<Rightarrow> nat option \<Rightarrow> error + nat" where
  "endIndexOf steps endStep =
     (case endStep of
        None \<Rightarrow> if steps = [] then Inl IndexError else Inr (length steps - 1)
      | Some i \<Rightarrow> if i < length steps then Inr i else Inl ValueError)"

text \<open>\<^verbatim>\<open>Fitter.run\<close> (fitter.py, lines 421-445). The value returned is the reload flag.\<close>

definition run ::
  "world \<Rightarrow> nat option \<Rightarrow> string option \<Rightarrow> pipeline \<Rightarrow> (bool, pipeline) outcome" where
  "run w endStep modelFileNameStem p =
     (case p of (steps, hist) \<Rightarrow>
      (case endIndexOf steps endStep of
        Inl e \<Rightarrow> Raise e p
      | Inr endIndex \<Rightarrow>
          if hasRun (steps ! endIndex) \<and> int endIndex < int (length steps) - 1
             \<and> hasRun (steps ! (endIndex + 1)) then
            (case load w p of
               Raise e p' \<Rightarrow> Raise e p'
             | Return _ p' \<Rightarrow>
                 (case replaySteps w modelFileNameStem [1..<endIndex + 1] p' of
                    Raise e p'' \<Rightarrow> Raise e p''
                  | Return _ p'' \<Rightarrow> Return True p''))
          else if endIndex = 0 then
            (case stepRun w 0 None p of
               Raise e p' \<Rightarrow> Raise e p'
             | Return _ p' \<Rightarrow> Return False p')
          else
            (case runRemainingSteps w modelFileNameStem [1..<endIndex + 1] p of
               Raise e p' \<Rightarrow> Raise e p'
             | Return _ p' \<Rightarrow> Return False p')))"

text \<open>The state an outcome leaves behind, whether it returned or raised.\<close>

fun stateOf :: "('a, 's) outcome \<Rightarrow> 's" where
  "stateOf (Raise e s) = s"
| "stateOf (Return a s) = s"

text \<open>
  The condition under which \<^verbatim>\<open>run\<close> reloads, as a predicate of the step list and the
  target's position: the target has run and the step right after it has run.
\<close>

definition reloadNeeded :: "fitterStep list \<Rightarrow> nat \<Rightarrow> bool" where
  "reloadNeeded steps endIndex =
     (hasRun (steps ! endIndex) \<and> endIndex + 1 < length steps \<and> hasRun (steps ! (endIndex + 1)))"

text \<open>Setting the flag of each step of a list of positions, one after the other.\<close>

definition markRun :: "fitterStep list \<Rightarrow> nat list \<Rightarrow> fitterStep list" where
  "markRun steps is = foldl (\<lambda>s i. s[i := setHasRun True (s ! i)]) steps is"

text \<open>
  The flags after a reload and a replay up to position \<open>k\<close>: set up to \<open>k\<close>, cleared
  beyond, on the same steps.
\<close>

definition flagsAfterReload :: "fitterStep list \<Rightarrow> nat \<Rightarrow> fitterStep list" where
  "flagsAfterReload steps k = map (\<lambda>(i, s). setHasRun (i \<le> k) s) (enumerate 0 steps)"

section \<open>Alignment solver\<close>

text \<open>
  Coordinates are lists of three floats in the source; here they are triples of reals, and a
  matrix is the triple of its rows. The functions \<^verbatim>\<open>sub\<close>, \<^verbatim>\<open>mult\<close> and
  \<^verbatim>\<open>matrix_vector_mult\<close> are those of the library \<^verbatim>\<open>opencmiss.maths.vectorops\<close>.
\<close>

type_synonym vec3 = "real \<times> real \<times> real"

type_synonym mat3 = "vec3 \<times> vec3 \<times> vec3"

fun add_v :: "vec3 \<Rightarrow> vec3 \<Rightarrow> vec3" where
  "add_v (a1, a2, a3) (b1, b2, b3) = (a1 + b1, a2 + b2, a3 + b3)"

fun sub_v :: "vec3 \<Rightarrow> vec3 \<Rightarrow> vec3" where
  "sub_v (a1, a2, a3) (b1, b2, b3) = (a1 - b1, a2 - b2, a3 - b3)"

fun mult_v :: "vec3 \<Rightarrow> real \<Rightarrow> vec3" where
  "mult_v (a1, a2, a3) s = (a1 * s, a2 * s, a3 * s)"

fun dot_v :: "vec3 \<Rightarrow> vec3 \<Rightarrow> real" where
  "dot_v (a1, a2, a3) (b1, b2, b3) = a1 * b1 + a2 * b2 + a3 * b3"

fun matrix_vector_mult :: "mat3 \<Rightarrow> vec3 \<Rightarrow> vec3" where
  "matrix_vector_mult (r1, r2, r3) v = (dot_v r1 v, dot_v r2 v, dot_v r3 v)"

fun min_v :: "vec3 \<Rightarrow> vec3 \<Rightarrow> vec3" where
  "min_v (a1, a2, a3) (b1, b2, b3) = (min a1 b1, min a2 b2, min a3 b3)"

fun max_v :: "vec3 \<Rightarrow> vec3 \<Rightarrow> vec3" where
  "max_v (a1, a2, a3) (b1, b2, b3) = (max a1 b1, max a2 b2, max a3 b3)"

text \<open>\<^verbatim>\<open>max(span)\<close> and \<^verbatim>\<open>sum(values)\<close> of a list of three floats.\<close>

fun max3 :: "vec3 \<Rightarrow> real" where
  "max3 (a1, a2, a3) = max (max a1 a2) a3"

fun sum3 :: "vec3 \<Rightarrow> real" where
  "sum3 (a1, a2, a3) = a1 + a2 + a3"

text \<open>
  What \<^verbatim>\<open>_optimiseAlignment\<close> calls outside this repository:
  \<^verbatim>\<open>euler_to_rotation_matrix\<close> of \<^verbatim>\<open>opencmiss.maths.vectorops\<close>; the value of the field
  that \<^verbatim>\<open>create_field_euler_angles_rotation_matrix\<close> builds, as a function of the value of
  the rotation field; and Zinc's optimisation. The optimisation is given the points, the scale
  and the rotation and translation it starts from, and yields the result of
  \<^verbatim>\<open>optimise()\<close> (whether it is \<^verbatim>\<open>RESULT_OK\<close>) and what the three
  \<^verbatim>\<open>evaluateReal\<close> calls of lines 402-404 return: a result and a value each.
\<close>

record alignLibrary =
  euler_to_rotation_matrix :: "vec3 \<Rightarrow> mat3"
  rotationMatrixField :: "vec3 \<Rightarrow> mat3"
  optimise :: "(vec3 \<times> vec3) list \<Rightarrow> vec3 \<Rightarrow> real \<Rightarrow> vec3
               \<Rightarrow> bool \<times> (bool \<times> vec3) \<times> (bool \<times> real) \<times> (bool \<times> vec3)"

text \<open>
  A point map is the dictionary \<^verbatim>\<open>pointMap\<close>, name to (model coordinates, data
  coordinates), in insertion order; \<^verbatim>\<open>pointMap[name] = value\<close> is \<^const>\<open>AList.update\<close>.
\<close>

type_synonym pointMap = "(string \<times> (vec3 \<times> vec3)) list"

text \<open>
  Lines 283-313: the sums, the bounding boxes, the centres of mass, the translation offset and
  the scale factor. The result is \<^verbatim>\<open>(modelCM, translationOffset, max(dataSpan),
  max(modelSpan))\<close>; the division of the last two is left to the caller, where it can raise.
\<close>

definition alignmentSeed :: "vec3 \<Rightarrow> vec3 \<Rightarrow> (vec3 \<times> vec3) list \<Rightarrow> vec3 \<times> vec3 \<times> real \<times> real" where
  "alignmentSeed model0 data0 positions =
     (let modelsum = foldl (\<lambda>s (modelx, datax). add_v s modelx) (0, 0, 0) positions;
          datasum = foldl (\<lambda>s (modelx, datax). add_v s datax) (0, 0, 0) positions;
          modelMin = foldl (\<lambda>m (modelx, datax). min_v modelx m) model0 positions;
          modelMax = foldl (\<lambda>m (modelx, datax). max_v modelx m) model0 positions;
          dataMin = foldl (\<lambda>m (modelx, datax). min_v datax m) data0 positions;
          dataMax = foldl (\<lambda>m (modelx, datax). max_v datax m) data0 positions;
          groupScale = 1 / real (length positions);
          modelCM = mult_v modelsum groupScale;
          dataCM = mult_v datasum groupScale;
          translationOffset = sub_v dataCM modelCM;
          modelSpan = sub_v modelMax modelMin;
          dataSpan = sub_v dataMax dataMin
      in (modelCM, translationOffset, max3 dataSpan, max3 modelSpan))"

text \<open>
  The field \<^verbatim>\<open>modelCoordinatesTransformed\<close> of \<^verbatim>\<open>createFieldsTransformations\<close> (lines
  45-49, with a translation scale factor of one): rotate, then scale, then translate.
\<close>

definition transformed :: "alignLibrary \<Rightarrow> vec3 \<Rightarrow> real \<Rightarrow> vec3 \<Rightarrow> vec3 \<Rightarrow> vec3" where
  "transformed lib rotation_angles scale_value translation_offsets coordinates =
     add_v (mult_v (matrix_vector_mult (rotationMatrixField lib rotation_angles) coordinates)
              scale_value)
       translation_offsets"

text \<open>
  The objective of lines 325-327 and its evaluation in lines 340-341: for each component the sum
  over the nodes of the square of data minus transformed model coordinates, and then the sum of
  the three components. The evaluation is taken to succeed (the source does not look at its
  result).
\<close>

fun square_v :: "vec3 \<Rightarrow> vec3" where
  "square_v (a1, a2, a3) = (a1 * a1, a2 * a2, a3 * a3)"

definition evaluateObjective ::
  "alignLibrary \<Rightarrow> (vec3 \<times> vec3) list \<Rightarrow> real \<Rightarrow> vec3 \<Rightarrow> vec3 \<Rightarrow> real" where
  "evaluateObjective lib positions scaleFactor rotationAngles translationValue =
     sum3 (foldl (\<lambda>s (modelx, datax).
              add_v s (square_v (sub_v datax
                (transformed lib rotationAngles scaleFactor translationValue modelx))))
            (0, 0, 0) positions)"

text \<open>
  The three nested loops of lines 329-331 list the values of \<^verbatim>\<open>(z, y, x)\<close> in this
  order, and lines 332-335 make of each the rotation angles
  \<^verbatim>\<open>[azimuth, elevation, roll]\<close>, in radians.
\<close>

definition gridIndices :: "(nat \<times> nat \<times> nat) list" where
  "gridIndices =
     concat (map (\<lambda>x.
       concat (map (\<lambda>y. map (\<lambda>z. (z, y, x)) [0..<4])
         (if x = 0 then [0..<4] else [0, 2])))
       [0..<2])"

fun rotationAnglesOf :: "nat \<times> nat \<times> nat \<Rightarrow> vec3" where
  "rotationAnglesOf (z, y, x) = (1/2 * pi * real z, 1/2 * pi * real y, 1/2 * pi * real x)"

definition gridAngles :: "vec3 list" where
  "gridAngles = map rotationAnglesOf gridIndices"

text \<open>Line 338 and the argument of line 339: the translation of a candidate.\<close>

definition candidateTranslation :: "alignLibrary \<Rightarrow> vec3 \<Rightarrow> real \<Rightarrow> vec3 \<Rightarrow> vec3 \<Rightarrow> vec3" where
  "candidateTranslation lib translationOffset scaleFactor modelCM rotationAngles =
     (let rotationMatrix = euler_to_rotation_matrix lib rotationAngles;
          translationFix = mult_v (sub_v (matrix_vector_mult rotationMatrix modelCM) modelCM)
                             scaleFactor
      in sub_v translationOffset translationFix)"

text \<open>
  The body of the loops, lines 336-347, over a list of candidates. The state is \<open>None\<close> while
  \<^verbatim>\<open>first\<close> is true and then
  \<^verbatim>\<open>(minObjectiveValue, minRotationAngles, minTranslation)\<close>.
\<close>

fun preAlign ::
  "(vec3 \<Rightarrow> vec3 \<Rightarrow> real) \<Rightarrow> (vec3 \<Rightarrow> vec3) \<Rightarrow> vec3 list \<Rightarrow> (real \<times> vec3 \<times> vec3) option
   \<Rightarrow> (real \<times> vec3 \<times> vec3) option" where
  "preAlign objective translationOf [] best = best"
| "preAlign objective translationOf (rotationAngles # rest) best =
     (let translationValue = translationOf rotationAngles;
          objectiveValue = objective rotationAngles translationValue
      in preAlign objective translationOf rest
           (case best of
              None \<Rightarrow> Some (objectiveValue, rotationAngles, translationValue)
            | Some (minObjectiveValue, minRotationAngles, minTranslation) \<Rightarrow>
                if objectiveValue < minObjectiveValue
                then Some (objectiveValue, rotationAngles, translationValue)
                else best))"

text \<open>The discrete search of lines 317-347 for given points and seed.\<close>

definition discreteSearch ::
  "alignLibrary \<Rightarrow> (vec3 \<times> vec3) list \<Rightarrow> vec3 \<Rightarrow> vec3 \<Rightarrow> real \<Rightarrow> (real \<times> vec3 \<times> vec3) option" where
  "discreteSearch lib positions modelCM translationOffset scaleFactor =
     preAlign (evaluateObjective lib positions scaleFactor)
       (candidateTranslation lib translationOffset scaleFactor modelCM) gridAngles None"

text \<open>A list of three floats as a Python value.\<close>

fun listOf :: "vec3 \<Rightarrow> pyval" where
  "listOf (a1, a2, a3) = PList [PNum a1, PNum a2, PNum a3]"

text \<open>
  Lines 400-407: the assertion on the result of the optimisation, the assignment of the three
  attributes from what the \<^verbatim>\<open>evaluateReal\<close> calls return (the translation multiplied by
  the translation scale factor, which is one), and then the assertion on the three results.
\<close>

definition storeResult ::
  "bool \<times> (bool \<times> vec3) \<times> (bool \<times> real) \<times> (bool \<times> vec3) \<Rightarrow> alignSettings
   \<Rightarrow> (unit, alignSettings) outcome" where
  "storeResult optimised step =
     (case optimised of
        (result, (result1, rotation'), (result2, scale'), (result3, translation')) \<Rightarrow>
          if \<not> result then Raise AssertionError step
          else
            let step' = step\<lparr>rotation := listOf rotation',
                               scale := PNum scale',
                               translation := listOf (mult_v translation' 1)\<rparr>
            in if result1 \<and> result2 \<and> result3 then Return () step'
               else Raise AssertionError step')"

text \<open>
  \<^verbatim>\<open>FitterStepAlign._optimiseAlignment\<close> (fitterstepalign.py, lines 263-407). The
  assertion of line 270 comes first. The optimisation starts from the rotation and the
  translation that the discrete search has left in the two fields (lines 349-350).
\<close>

definition optimiseAlignment ::
  "alignLibrary \<Rightarrow> pointMap \<Rightarrow> alignSettings \<Rightarrow> (unit, alignSettings) outcome" where
  "optimiseAlignment lib pointMap step =
     (if \<not> length pointMap \<ge> 3 then Raise AssertionError step
      else
        (case pointMap of
           [] \<Rightarrow> Raise IndexError step
         | (name0, (model0, data0)) # _ \<Rightarrow>
             (case alignmentSeed model0 data0 (map snd pointMap) of
                (modelCM, translationOffset, maxDataSpan, maxModelSpan) \<Rightarrow>
                  if maxModelSpan = 0 then Raise ZeroDivisionError step
                  else
                    let scaleFactor = maxDataSpan / maxModelSpan in
                    (case discreteSearch lib (map snd pointMap) modelCM translationOffset
                            scaleFactor of
                       None \<Rightarrow> Raise UnboundLocalError step
                     | Some (minObjectiveValue, minRotationAngles, minTranslation) \<Rightarrow>
                         storeResult
                           (optimise lib (map snd pointMap) minRotationAngles scaleFactor
                              minTranslation) step))))"

text \<open>
  Marker names are matched after \<^verbatim>\<open>name.strip().casefold()\<close>. For ASCII names,
  \<^verbatim>\<open>strip\<close> removes the leading and trailing characters for which \<^verbatim>\<open>str.isspace\<close>
  holds (codes 9 to 13, 28 to 31 and 32) and \<^verbatim>\<open>casefold\<close> maps the capital letters to the
  small ones.
\<close>

definition isspace :: "char \<Rightarrow> bool" where
  "isspace c = (let n = (of_char c :: nat) in (9 \<le> n \<and> n \<le> 13) \<or> (28 \<le> n \<and> n \<le> 32))"

definition strip :: "string \<Rightarrow> string" where
  "strip s = rev (dropWhile isspace (rev (dropWhile isspace s)))"

definition casefold :: "string \<Rightarrow> string" where
  "casefold s =
     map (\<lambda>c. let n = (of_char c :: nat) in if 65 \<le> n \<and> n \<le> 90 then char_of (n + 32) else c) s"

text \<open>
  The loop of lines 243-256 over the model markers. The data marker found is the first, in
  the order of the dictionary, whose stripped and case-folded name equals that of the model
  marker; \<^verbatim>\<open>dataMarkers.pop(dataName)\<close> stands inside \<^verbatim>\<open>if writeDiagnostics:\<close>.
  The result is the point map and what is left of the data markers.
\<close>

fun matchMarkers ::
  "bool \<Rightarrow> (string \<times> vec3) list \<Rightarrow> (string \<times> vec3) list \<Rightarrow> pointMap
   \<Rightarrow> pointMap \<times> (string \<times> vec3) list" where
  "matchMarkers writeDiagnostics [] dataMarkers pointMap = (pointMap, dataMarkers)"
| "matchMarkers writeDiagnostics ((modelName, modelx) # rest) dataMarkers pointMap =
     (let matchName = casefold (strip modelName) in
      (case find (\<lambda>(dataName, datax). casefold (strip dataName) = matchName) dataMarkers of
         None \<Rightarrow> matchMarkers writeDiagnostics rest dataMarkers pointMap
       | Some (dataName, datax) \<Rightarrow>
           matchMarkers writeDiagnostics rest
             (if writeDiagnostics then AList.delete dataName dataMarkers else dataMarkers)
             (AList.update modelName (modelx, datax) pointMap)))"

text \<open>
  What \<^verbatim>\<open>_doAutoAlign\<close> reads of the fitter. For the groups: the groups that have both a
  data group and a mesh group for projection, in the order of \<^verbatim>\<open>get_group_list\<close>, each with
  its name, its mean model coordinates and its mean data coordinates, or \<open>None\<close> when one of
  the evaluations fails its assertion. For the markers: whether there is a marker group, and
  the dictionaries that \<^verbatim>\<open>getNodeNameCentres\<close> returns for the model and for the data, each
  \<open>None\<close> when the group, coordinates or name field it needs is missing.
\<close>

record alignInputs =
  groupCentres :: "(string \<times> vec3 \<times> vec3) list option"
  markerGroup :: bool
  modelMarkers :: "(string \<times> vec3) list option"
  dataMarkers :: "(string \<times> vec3) list option"

text \<open>The truth value of a Python value, as \<^verbatim>\<open>if\<close> reads it.\<close>

fun truthy :: "pyval \<Rightarrow> bool" where
  "truthy PNone = False"
| "truthy (PBool b) = b"
| "truthy (PNum x) = (x \<noteq> 0)"
| "truthy (PStr s) = (s \<noteq> [])"
| "truthy (PList xs) = (xs \<noteq> [])"
| "truthy (PDict kvs) = (kvs \<noteq> [])"
| "truthy (PStep i) = True"

text \<open>
  Lines 204-259 of \<^verbatim>\<open>_doAutoAlign\<close>: the point map it builds, or the exception it raises
  before it has one. The diagnostic level is that of the fitter.
\<close>

definition buildPointMap :: "alignInputs \<Rightarrow> int \<Rightarrow> alignSettings \<Rightarrow> error + pointMap" where
  "buildPointMap inputs diagnosticLevel step =
     (case (if truthy (alignGroups step) then
              (case groupCentres inputs of
                 None \<Rightarrow> Inl AssertionError
               | Some centres \<Rightarrow>
                   Inr (foldl (\<lambda>pointMap (groupName, meanModel, meanData).
                           AList.update groupName (meanModel, meanData) pointMap) [] centres))
            else Inr []) of
        Inl e \<Rightarrow> Inl e
      | Inr pointMap \<Rightarrow>
          if truthy (alignMarkers step) then
            (if \<not> markerGroup inputs then Inl AssertionError
             else (case modelMarkers inputs of
                     None \<Rightarrow> Inl AssertionError
                   | Some modelMarkers' \<Rightarrow>
                       (case dataMarkers inputs of
                          None \<Rightarrow> Inl AssertionError
                        | Some dataMarkers' \<Rightarrow>
                            Inr (fst (matchMarkers (diagnosticLevel > 0) modelMarkers'
                                       dataMarkers' pointMap)))))
          else Inr pointMap)"

text \<open>\<^verbatim>\<open>FitterStepAlign._doAutoAlign\<close> (fitterstepalign.py, lines 199-261).\<close>

definition doAutoAlign ::
  "alignLibrary \<Rightarrow> alignInputs \<Rightarrow> int \<Rightarrow> alignSettings \<Rightarrow> (unit, alignSettings) outcome" where
  "doAutoAlign lib inputs diagnosticLevel step =
     (case buildPointMap inputs diagnosticLevel step of
        Inl e \<Rightarrow> Raise e step
      | Inr pointMap \<Rightarrow> optimiseAlignment lib pointMap step)"


text \<open>
  A library for illustration: both rotation matrices are the half turn about the third axis at
  the angles \<open>(\<pi>, 0, 0)\<close> and the identity elsewhere, and the optimisation succeeds and leaves
  the parameters where they started. The three points are the unit points, whose data are their
  images under that half turn.
\<close>

definition exampleLibrary :: alignLibrary where
  "exampleLibrary =
     \<lparr>euler_to_rotation_matrix =
        (\<lambda>(a, e, r). if a = pi \<and> e = 0 \<and> r = 0 then ((-1, 0, 0), (0, -1, 0), (0, 0, 1))
                     else ((1, 0, 0), (0, 1, 0), (0, 0, 1))),
      rotationMatrixField =
        (\<lambda>(a, e, r). if a = pi \<and> e = 0 \<and> r = 0 then ((-1, 0, 0), (0, -1, 0), (0, 0, 1))
                     else ((1, 0, 0), (0, 1, 0), (0, 0, 1))),
      optimise = (\<lambda>positions r s t. (True, (True, r), (True, s), (True, t)))\<rparr>"

definition examplePositions :: "(vec3 \<times> vec3) list" where
  "examplePositions = [((1, 0, 0), (-1, 0, 0)), ((0, 1, 0), (0, -1, 0)), ((0, 0, 1), (0, 0, 1))]"

definition exampleAlignStep :: alignSettings where
  "exampleAlignStep =
     \<lparr>alignGroups = PBool False, alignMarkers = PBool True,
      rotation = PList [PNum 0, PNum 0, PNum 0], scale = PNum 1,
      translation = PList [PNum 0, PNum 0, PNum 0]\<rparr>"

text \<open>
  A model with the markers \<open>A\<close>, \<open>a\<close> and \<open>B\<close> and data with the markers \<open>a\<close> and
  \<open>b\<close> followed by a space.
\<close>

definition exampleInputs :: alignInputs where
  "exampleInputs =
     \<lparr>groupCentres = Some [], markerGroup = True,
      modelMarkers = Some [(''A'', (1, 0, 0)), (''a'', (0, 1, 0)), (''B'', (0, 0, 1))],
      dataMarkers = Some [(''a'', (-1, 0, 0)), (''b '', (0, 0, 1))]\<rparr>"

section \<open>Penalty assignment\<close>

text \<open>
  What \<^verbatim>\<open>Fitter.assignDeformationPenalties\<close> reads of the Zinc region: the highest
  dimension mesh with its dimension and its elements in iteration order (elements are named by
  their identifiers), and the groups of the field module in the order of
  \<^verbatim>\<open>getGroupList\<close>. Of a group, its name and its element group for that mesh are read:
  \<open>None\<close> when \<^verbatim>\<open>group.getFieldElementGroup(mesh).isValid()\<close> is false, otherwise the
  elements of the mesh group.
\<close>

record mesh =
  dimension :: nat
  elements :: "nat list"

record zincGroup =
  groupName :: string
  elementGroup :: "nat list option"

text \<open>
  The class \<^verbatim>\<open>FitterStepFit\<close> is not among the sources. Its two methods that
  \<^verbatim>\<open>assignDeformationPenalties\<close> calls are taken as they are called: given a group name
  (\<open>None\<close> for the default group) and a number of components, each returns the penalty
  values, whether they are set locally (\<^verbatim>\<open>True\<close>, \<^verbatim>\<open>False\<close> or \<^verbatim>\<open>None\<close>), and whether
  they are inheritable.
\<close>

record fitterStepFit =
  getGroupStrainPenalty :: "string option \<Rightarrow> nat \<Rightarrow> real list \<times> bool option \<times> bool"
  getGroupCurvaturePenalty :: "string option \<Rightarrow> nat \<Rightarrow> real list \<times> bool option \<times> bool"

text \<open>
  The fields and mesh groups that \<^verbatim>\<open>_defineCommonMeshFields\<close> creates: the per-element
  constant strain and curvature penalty fields (the values assigned at each element) and the
  three active mesh groups.
\<close>

record penaltyFields =
  strainPenaltyField :: "nat \<rightharpoonup> real list"
  curvaturePenaltyField :: "nat \<rightharpoonup> real list"
  deformActiveMeshGroup :: "nat set"
  strainActiveMeshGroup :: "nat set"
  curvatureActiveMeshGroup :: "nat set"

text \<open>
  One entry of the list \<^verbatim>\<open>groups\<close> of lines 601-624. The group name and the mesh group of
  the source's tuple are those of \<open>group\<close>; \<open>None\<close> is the default group.
\<close>

record penaltyGroup =
  group :: "zincGroup option"
  groupStrainPenalty :: "real list"
  groupStrainPenaltyNonZero :: bool
  groupStrainSet :: bool
  groupCurvaturePenalty :: "real list"
  groupCurvaturePenaltyNonZero :: bool
  groupCurvatureSet :: bool

text \<open>
  \<^verbatim>\<open>setLocally or ((setLocally is False) and inheritable)\<close>, as a truth value.
\<close>

definition isSet :: "bool option \<Rightarrow> bool \<Rightarrow> bool" where
  "isSet setLocally inheritable =
     (setLocally = Some True \<or> (setLocally = Some False \<and> inheritable))"

text \<open>\<^verbatim>\<open>any((s > 0.0) for s in penalty)\<close>.\<close>

definition anyPositive :: "real list \<Rightarrow> bool" where
  "anyPositive penalty = list_ex (\<lambda>s. s > 0) penalty"

text \<open>Lines 615-624: the entry of a group that was not skipped.\<close>

definition penaltyGroupOf :: "fitterStepFit \<Rightarrow> nat \<Rightarrow> nat \<Rightarrow> zincGroup option \<Rightarrow> penaltyGroup" where
  "penaltyGroupOf fitterStepFit strainComponents curvatureComponents g =
     (let name = map_option groupName g in
      (case getGroupStrainPenalty fitterStepFit name strainComponents of
         (strainPenalty, strainSetLocally, strainInheritable) \<Rightarrow>
      (case getGroupCurvaturePenalty fitterStepFit name curvatureComponents of
         (curvaturePenalty, curvatureSetLocally, curvatureInheritable) \<Rightarrow>
           \<lparr>group = g,
            groupStrainPenalty = strainPenalty,
            groupStrainPenaltyNonZero = anyPositive strainPenalty,
            groupStrainSet = isSet strainSetLocally strainInheritable,
            groupCurvaturePenalty = curvaturePenalty,
            groupCurvaturePenaltyNonZero = anyPositive curvaturePenalty,
            groupCurvatureSet = isSet curvatureSetLocally curvatureInheritable\<rparr>)))"

text \<open>
  The loop of lines 603-624 over \<^verbatim>\<open>getGroupList(self._fieldmodule) + [None]\<close>: a named group
  without a valid element group for the mesh, or with an empty mesh group, is skipped.
\<close>

fun penaltyGroups ::
  "fitterStepFit \<Rightarrow> nat \<Rightarrow> nat \<Rightarrow> zincGroup option list \<Rightarrow> penaltyGroup list" where
  "penaltyGroups fitterStepFit sc cc [] = []"
| "penaltyGroups fitterStepFit sc cc (None # rest) =
     penaltyGroupOf fitterStepFit sc cc None # penaltyGroups fitterStepFit sc cc rest"
| "penaltyGroups fitterStepFit sc cc (Some g # rest) =
     (case elementGroup g of
        None \<Rightarrow> penaltyGroups fitterStepFit sc cc rest
      | Some meshGroup \<Rightarrow>
          if length meshGroup = 0 then penaltyGroups fitterStepFit sc cc rest
          else penaltyGroupOf fitterStepFit sc cc (Some g) # penaltyGroups fitterStepFit sc cc rest)"

text \<open>
  \<^verbatim>\<open>(not group) or meshGroup.containsElement(element)\<close>, and \<^verbatim>\<open>not strainPenalty\<close>: in
  Python \<^verbatim>\<open>None\<close> and the empty list are false, every other list is true.
\<close>

definition containsElement :: "penaltyGroup \<Rightarrow> nat \<Rightarrow> bool" where
  "containsElement entry element =
     (case group entry of
        None \<Rightarrow> True
      | Some g \<Rightarrow> (case elementGroup g of None \<Rightarrow> False | Some meshGroup \<Rightarrow> element \<in> set meshGroup))"

definition notPenalty :: "real list option \<Rightarrow> bool" where
  "notPenalty penalty = (penalty = None \<or> penalty = Some [])"

text \<open>
  The inner loop of lines 638-646 for one element. The state is
  \<^verbatim>\<open>(strainPenalty, strainPenaltyNonZero, curvaturePenalty, curvaturePenaltyNonZero)\<close>.
\<close>

fun scanGroups ::
  "nat \<Rightarrow> penaltyGroup list \<Rightarrow> real list option \<times> bool \<times> real list option \<times> bool
   \<Rightarrow> real list option \<times> bool \<times> real list option \<times> bool" where
  "scanGroups element [] state = state"
| "scanGroups element (entry # rest) (strainPenalty, strainNonZero, curvaturePenalty, curvatureNonZero) =
     (if containsElement entry element then
        (let (strainPenalty', strainNonZero') =
               (if notPenalty strainPenalty \<and> (groupStrainSet entry \<or> group entry = None)
                then (Some (groupStrainPenalty entry), groupStrainPenaltyNonZero entry)
                else (strainPenalty, strainNonZero));
             (curvaturePenalty', curvatureNonZero') =
               (if notPenalty curvaturePenalty \<and> (groupCurvatureSet entry \<or> group entry = None)
                then (Some (groupCurvaturePenalty entry), groupCurvaturePenaltyNonZero entry)
                else (curvaturePenalty, curvatureNonZero))
         in scanGroups element rest
              (strainPenalty', strainNonZero', curvaturePenalty', curvatureNonZero'))
      else scanGroups element rest
             (strainPenalty, strainNonZero, curvaturePenalty, curvatureNonZero))"

text \<open>
  The element loop of lines 632-660. \<^verbatim>\<open>assignReal\<close> of \<^verbatim>\<open>None\<close> is a \<open>TypeError\<close> of
  the Zinc binding; it cannot arise, since the default group ends the list.
\<close>

fun assignElements ::
  "penaltyGroup list \<Rightarrow> nat list \<Rightarrow> penaltyFields \<Rightarrow> (unit, penaltyFields) outcome" where
  "assignElements groups [] penalties = Return () penalties"
| "assignElements groups (element # rest) penalties =
     (case scanGroups element groups (None, False, None, False) of
        (Some strainPenalty, strainPenaltyNonZero, Some curvaturePenalty, curvaturePenaltyNonZero) \<Rightarrow>
          assignElements groups rest
            (penalties\<lparr>
               strainPenaltyField := (strainPenaltyField penalties)(element \<mapsto> strainPenalty),
               curvaturePenaltyField := (curvaturePenaltyField penalties)(element \<mapsto> curvaturePenalty),
               strainActiveMeshGroup :=
                 (if strainPenaltyNonZero then insert element (strainActiveMeshGroup penalties)
                  else strainActiveMeshGroup penalties),
               curvatureActiveMeshGroup :=
                 (if curvaturePenaltyNonZero then insert element (curvatureActiveMeshGroup penalties)
                  else curvatureActiveMeshGroup penalties),
               deformActiveMeshGroup :=
                 (if strainPenaltyNonZero \<or> curvaturePenaltyNonZero
                  then insert element (deformActiveMeshGroup penalties)
                  else deformActiveMeshGroup penalties)\<rparr>)
      | _ \<Rightarrow> Raise TypeError penalties)"

text \<open>
  \<^verbatim>\<open>Fitter.assignDeformationPenalties\<close> (fitter.py, lines 585-661); the component counts
  are those of lines 599-600, and \<open>penaltyGroupList\<close> is the list \<^verbatim>\<open>groups\<close>. The mesh is \<open>None\<close>
  when no mesh has elements, and the fields are \<open>None\<close> when
  \<^verbatim>\<open>_defineCommonMeshFields\<close> has not defined them (before a load, or for a mesh of
  dimension one); a method call on \<^verbatim>\<open>None\<close> is an \<open>AttributeError\<close>. The value returned is
  the triple of the deform, strain and curvature active mesh groups.
\<close>

definition strainComponents :: "mesh \<Rightarrow> nat" where
  "strainComponents m = (if dimension m = 3 then 9 else 4)"

definition curvatureComponents :: "mesh \<Rightarrow> nat" where
  "curvatureComponents m = (if dimension m = 3 then 27 else 8)"

definition penaltyGroupList :: "fitterStepFit \<Rightarrow> mesh \<Rightarrow> zincGroup list \<Rightarrow> penaltyGroup list" where
  "penaltyGroupList fitterStepFit m groupList =
     penaltyGroups fitterStepFit (strainComponents m) (curvatureComponents m)
       (map Some groupList @ [None])"

definition assignDeformationPenalties ::
  "fitterStepFit \<Rightarrow> zincGroup list \<Rightarrow> mesh option \<Rightarrow> penaltyFields option
   \<Rightarrow> (nat set \<times> nat set \<times> nat set, penaltyFields option) outcome" where
  "assignDeformationPenalties fitterStepFit groupList highestDimensionMesh penalties =
     (case highestDimensionMesh of
        None \<Rightarrow> Raise AttributeError penalties
      | Some mesh \<Rightarrow>
          let groups = penaltyGroupList fitterStepFit mesh groupList
          in (case penalties of
                None \<Rightarrow> Raise AttributeError penalties
              | Some f \<Rightarrow>
                  (case assignElements groups (elements mesh)
                          (f\<lparr>deformActiveMeshGroup := {}, strainActiveMeshGroup := {},
                             curvatureActiveMeshGroup := {}\<rparr>) of
                     Raise e f' \<Rightarrow> Raise e (Some f')
                   | Return _ f' \<Rightarrow>
                       Return (deformActiveMeshGroup f', strainActiveMeshGroup f',
                               curvatureActiveMeshGroup f') (Some f'))))"

text \<open>
  The rule the claims state, written without the loop: the first entry, in the order of the
  list, that contains the element and whose strain (curvature) tensor is set or inheritable, the
  default group counting as always set.
\<close>

definition strainGroupFor :: "penaltyGroup list \<Rightarrow> nat \<Rightarrow> penaltyGroup option" where
  "strainGroupFor groups element =
     find (\<lambda>entry. containsElement entry element \<and> (groupStrainSet entry \<or> group entry = None))
       groups"

definition curvatureGroupFor :: "penaltyGroup list \<Rightarrow> nat \<Rightarrow> penaltyGroup option" where
  "curvatureGroupFor groups element =
     find (\<lambda>entry. containsElement entry element \<and> (groupCurvatureSet entry \<or> group entry = None))
       groups"


text \<open>Whether a group is entered in the list: its mesh group exists and is not empty.\<close>

definition meshGroupNonEmpty :: "zincGroup \<Rightarrow> bool" where
  "meshGroupNonEmpty g =
     (case elementGroup g of None \<Rightarrow> False | Some meshGroup \<Rightarrow> meshGroup \<noteq> [])"

text \<open>
  A configuration for illustration: on a surface mesh of five elements, group \<open>G3\<close> (elements
  2, 3) has no strain or curvature setting, \<open>G1\<close> (elements 1, 2) sets strain to ones,
  \<open>G2\<close> (elements 2, 4) sets strain to twos and inherits a curvature of fives, \<open>G0\<close> has no
  elements in the mesh, and the default is zero.
\<close>

definition exampleFit :: fitterStepFit where
  "exampleFit =
     \<lparr>getGroupStrainPenalty =
        (\<lambda>name n. if name = Some ''G1'' then (replicate n 1, Some True, True)
                  else if name = Some ''G2'' then (replicate n 2, Some True, True)
                  else if name = Some ''G3'' then (replicate n 3, None, True)
                  else (replicate n 0, Some False, False)),
      getGroupCurvaturePenalty =
        (\<lambda>name n. if name = Some ''G2'' then (replicate n 5, Some False, True)
                  else (replicate n 0, None, False))\<rparr>"

definition exampleGroups :: "zincGroup list" where
  "exampleGroups =
     [\<lparr>groupName = ''G0'', elementGroup = None\<rparr>,
      \<lparr>groupName = ''G3'', elementGroup = Some [2, 3]\<rparr>,
      \<lparr>groupName = ''G1'', elementGroup = Some [1, 2]\<rparr>,
      \<lparr>groupName = ''G2'', elementGroup = Some [2, 4]\<rparr>]"

definition exampleMesh :: mesh where
  "exampleMesh = \<lparr>dimension = 2, elements = [1, 2, 3, 4, 5]\<rparr>"

definition examplePenalties :: penaltyFields where
  "examplePenalties =
     \<lparr>strainPenaltyField = Map.empty, curvaturePenaltyField = Map.empty,
      deformActiveMeshGroup = {9}, strainActiveMeshGroup = {9},
      curvatureActiveMeshGroup = {9}\<rparr>"

section \<open>Correspondence engine: subsampling of data points\<close>

subsection \<open>Floats\<close>

text \<open>
  Python's floats are the binary64 numbers of IEEE 754. A float is represented by the real
  number that is its value, and an arithmetic operation on floats gives the exact result
  rounded to the nearest float, a tie going to the float with the even significand.
  \<open>bit_length\<close> is \<^verbatim>\<open>int.bit_length\<close>; \<open>ulp x\<close> is the distance between the floats
  around \<open>x\<close>, which is \<open>2 ^ (e - 52)\<close> for \<open>2 ^ e \<le> \<bar>x\<bar> < 2 ^ (e + 1)\<close> and does not go below
  \<open>2 ^ -1074\<close>, the distance of the subnormal numbers; \<open>fl x\<close> is the float nearest to \<open>x\<close>.
  Magnitudes of \<open>2 ^ 1024\<close> and more, where an operation overflows to infinity, are outside of
  the model: the counter of the loop below stays between 0 and 2 when the proportion is at
  most 1.
\<close>

fun bit_length :: "nat \<Rightarrow> nat" where
  "bit_length n = (if n = 0 then 0 else Suc (bit_length (n div 2)))"

declare bit_length.simps [simp del]

text \<open>
  Rounding to the nearest integer, a tie going to the even neighbour: the rounding of the
  float operations, and Python's built-in \<^verbatim>\<open>round\<close> on a float. \<^const>\<open>round\<close> of HOL rounds
  a tie upwards.
\<close>

definition round_half_even :: "real \<Rightarrow> int" where
  "round_half_even x =
     (if frac x = 1/2 then (if even \<lfloor>x\<rfloor> then \<lfloor>x\<rfloor> else \<lfloor>x\<rfloor> + 1) else \<lfloor>x + 1/2\<rfloor>)"

definition ulp :: "real \<Rightarrow> real" where
  "ulp x =
     (if \<bar>x\<bar> < 1 then 1 / 2 ^ (52 + min 1022 (bit_length (nat (\<lceil>1 / \<bar>x\<bar>\<rceil> - 1))))
      else 2 ^ bit_length (nat \<lfloor>\<bar>x\<bar>\<rfloor>) / 2 ^ 53)"

definition fl :: "real \<Rightarrow> real" where
  "fl x = ulp x * of_int (round_half_even (x / ulp x))"

subsection \<open>The loop\<close>

text \<open>
  The \<^verbatim>\<open>while node.isValid()\<close> loop of \<^verbatim>\<open>Fitter.calculateGroupDataProjections\<close>
  (fitter.py, lines 949-963). The node iterator is the list of the data group's nodes in
  iteration order, \<open>findLocation\<close> is the nearest-location search of the Zinc library
  (\<open>None\<close> when the element it returns is not valid), and the result lists, in order, every
  node for which the search was evaluated together with what the search returned.
  \<^verbatim>\<open>dataProportionCounter += dataProportion\<close> and \<^verbatim>\<open>dataProportionCounter -= 1.0\<close> are
  float operations.
\<close>

fun projectionLoop ::
  "('n \<Rightarrow> 'l option) \<Rightarrow> real \<Rightarrow> real \<Rightarrow> 'n list \<Rightarrow> ('n \<times> 'l option) list" where
  "projectionLoop findLocation dataProportion dataProportionCounter [] = []"
| "projectionLoop findLocation dataProportion dataProportionCounter (node # nodes) =
     (let counter = fl (dataProportionCounter + dataProportion) in
      if counter \<ge> 1 then
        (node, findLocation node)
          # projectionLoop findLocation dataProportion (fl (counter - 1)) nodes
      else projectionLoop findLocation dataProportion counter nodes)"

text \<open>The nodes the accumulator accepts: the counter starts at one half.\<close>

definition acceptedNodes :: "('n \<Rightarrow> 'l option) \<Rightarrow> real \<Rightarrow> 'n list \<Rightarrow> 'n list" where
  "acceptedNodes findLocation dataProportion nodes =
     map fst (projectionLoop findLocation dataProportion (1/2) nodes)"

text \<open>
  The accepted nodes that are added to the projection group, with the mesh location stored
  for each: those whose search returned a valid element.
\<close>

definition projectedNodes :: "('n \<Rightarrow> 'l option) \<Rightarrow> real \<Rightarrow> 'n list \<Rightarrow> ('n \<times> 'l) list" where
  "projectedNodes findLocation dataProportion nodes =
     concat (map (\<lambda>(node, loc). case loc of None \<Rightarrow> [] | Some l \<Rightarrow> [(node, l)])
       (projectionLoop findLocation dataProportion (1/2) nodes))"

text \<open>The float that Python reads \<^verbatim>\<open>0.1\<close> as.\<close>

definition tenth :: real where
  "tenth = 3602879701896397 / 36028797018963968"

section \<open>Fitter settings\<close>

text \<open>
  The attributes of a \<^verbatim>\<open>Fitter\<close> that the settings functions and \<^verbatim>\<open>writeModel\<close> read
  and write. The four names and the diagnostic level hold what was last assigned to them, of
  whatever type. Of the Zinc side there is: whether there is a field module
  (\<^verbatim>\<open>self._fieldmodule\<close> is \<^verbatim>\<open>None\<close> before the first load); the field object
  \<^verbatim>\<open>self._modelCoordinatesField\<close>, which is represented by the name the field currently has in
  the region, \<open>None\<close> when there is no such object; and the calls of \<^verbatim>\<open>region.write\<close> made
  so far, each with the file name, the field names of its stream resource and the name that
  the model coordinates field had in the region at that moment.
\<close>

record fitter =
  modelCoordinatesFieldName :: pyval
  dataCoordinatesFieldName :: pyval
  fibreFieldName :: pyval
  markerGroupName :: pyval
  diagnosticLevel :: pyval
  fitterSteps :: "fitterStep list"
  fieldmodule :: bool
  modelCoordinatesField :: "string option"
  written :: "(string \<times> string list \<times> string) list"

subsection \<open>Encoding\<close>

text \<open>
  A JSON text is represented by the document it denotes, a \<open>pyval\<close> without step references:
  \<^verbatim>\<open>json.dumps\<close> and the parsing part of \<^verbatim>\<open>json.loads\<close> belong to Python's library and
  are taken to be inverse to each other on the documents that occur. A text that is not JSON
  has no document and is not represented.
\<close>

text \<open>
  The type discriminators. \<^verbatim>\<open>FitterStepAlign._jsonTypeId\<close> is in the source
  (fitterstepalign.py, line 56).
  Modelled from the spec: the identifiers of the Config and Fit steps, whose classes are not
  among the sources, are named after the pattern of the Align step's.
\<close>

fun jsonTypeId :: "stepBody \<Rightarrow> string" where
  "jsonTypeId FitterStepConfig = ''_FitterStepConfig''"
| "jsonTypeId (FitterStepAlign a) = ''_FitterStepAlign''"
| "jsonTypeId FitterStepFit = ''_FitterStepFit''"

text \<open>\<^verbatim>\<open>dct.update(other)\<close>: the items of \<open>other\<close> are stored in their order.\<close>

definition dictUpdate :: "(string \<times> pyval) list \<Rightarrow> (string \<times> pyval) list \<Rightarrow> (string \<times> pyval) list" where
  "dictUpdate dct other = foldl (\<lambda>d (k, v). AList.update k v d) dct other"

text \<open>
  Modelled from the spec: \<^verbatim>\<open>FitterStep.encodeSettingsJSONDict\<close> of the base class
  (fitterstep.py is not among the sources). The spec says that a step record carries a type
  discriminator and type-specific fields; the base class contributes the discriminator.
\<close>

definition baseEncodeSettingsJSONDict :: "stepBody \<Rightarrow> (string \<times> pyval) list" where
  "baseEncodeSettingsJSONDict b = [(jsonTypeId b, PBool True)]"

text \<open>\<^verbatim>\<open>FitterStepAlign.encodeSettingsJSONDict\<close> (fitterstepalign.py, lines 84-98).\<close>

definition alignEncodeSettingsJSONDict :: "alignSettings \<Rightarrow> (string \<times> pyval) list" where
  "alignEncodeSettingsJSONDict a =
     dictUpdate (baseEncodeSettingsJSONDict (FitterStepAlign a))
       [(''alignGroups'', alignGroups a),
        (''alignMarkers'', alignMarkers a),
        (''rotation'', rotation a),
        (''scale'', scale a),
        (''translation'', translation a)]"

text \<open>
  \<^verbatim>\<open>fitterStep.encodeSettingsJSONDict()\<close> by the class of the step. The Config and Fit steps
  carry no settings here, so theirs is the base class's dictionary.
\<close>

definition encodeSettingsJSONDict :: "fitterStep \<Rightarrow> (string \<times> pyval) list" where
  "encodeSettingsJSONDict step =
     (case body step of
        FitterStepAlign a \<Rightarrow> alignEncodeSettingsJSONDict a
      | b \<Rightarrow> baseEncodeSettingsJSONDict b)"

text \<open>\<^verbatim>\<open>Fitter.encodeSettingsJSON\<close> (fitter.py, lines 103-115).\<close>

definition encodeSettingsJSON :: "fitter \<Rightarrow> pyval" where
  "encodeSettingsJSON f =
     PDict [(''modelCoordinatesField'', modelCoordinatesFieldName f),
            (''dataCoordinatesField'', dataCoordinatesFieldName f),
            (''fibreField'', fibreFieldName f),
            (''markerGroup'', markerGroupName f),
            (''diagnosticLevel'', diagnosticLevel f),
            (''fitterSteps'', PList (map (\<lambda>step. PDict (encodeSettingsJSONDict step))
                                       (fitterSteps f)))]"

subsection \<open>Decoding\<close>

text \<open>
  The \<^verbatim>\<open>decoder\<close> argument of \<^verbatim>\<open>decodeSettingsJSON\<close>: called with the fitter and a
  dictionary, it returns a value, may change the fitter, and may raise.
\<close>

type_synonym decoder = "fitter \<Rightarrow> (string \<times> pyval) list \<Rightarrow> (pyval, fitter) outcome"

text \<open>
  \<^verbatim>\<open>json.loads(s, object_hook=hook)\<close> on a document: the values are built in the order of
  the text; every object becomes a dictionary (a repeated key keeps its first place and its last
  value) on which the hook is called as soon as the object is complete, and the hook's value
  takes its place.
\<close>

fun loads :: "decoder \<Rightarrow> pyval \<Rightarrow> fitter \<Rightarrow> (pyval, fitter) outcome"
  and loadsList :: "decoder \<Rightarrow> pyval list \<Rightarrow> fitter \<Rightarrow> (pyval list, fitter) outcome"
  and loadsItems ::
    "decoder \<Rightarrow> (string \<times> pyval) list \<Rightarrow> fitter \<Rightarrow> ((string \<times> pyval) list, fitter) outcome"
where
  "loads hook (PDict items) f =
     (case loadsItems hook items f of
        Raise e f' \<Rightarrow> Raise e f'
      | Return items' f' \<Rightarrow> hook f' (dictUpdate [] items'))"
| "loads hook (PList xs) f =
     (case loadsList hook xs f of
        Raise e f' \<Rightarrow> Raise e f'
      | Return xs' f' \<Rightarrow> Return (PList xs') f')"
| "loads hook PNone f = Return PNone f"
| "loads hook (PBool b) f = Return (PBool b) f"
| "loads hook (PNum x) f = Return (PNum x) f"
| "loads hook (PStr s) f = Return (PStr s) f"
| "loads hook (PStep i) f = Return (PStep i) f"
| "loadsList hook [] f = Return [] f"
| "loadsList hook (x # xs) f =
     (case loads hook x f of
        Raise e f' \<Rightarrow> Raise e f'
      | Return x' f' \<Rightarrow>
          (case loadsList hook xs f' of
             Raise e f'' \<Rightarrow> Raise e f''
           | Return xs' f'' \<Rightarrow> Return (x' # xs') f''))"
| "loadsItems hook [] f = Return [] f"
| "loadsItems hook (item # items) f =
     (case loads hook (snd item) f of
        Raise e f' \<Rightarrow> Raise e f'
      | Return v' f' \<Rightarrow>
          (case loadsItems hook items f' of
             Raise e f'' \<Rightarrow> Raise e f''
           | Return items' f'' \<Rightarrow> Return ((fst item, v') # items') f''))"

text \<open>\<^verbatim>\<open>settings.get(key)\<close> on a dictionary: \<^verbatim>\<open>None\<close> for an absent key.\<close>

definition dictGet :: "(string \<times> pyval) list \<Rightarrow> string \<Rightarrow> pyval" where
  "dictGet dct key = (case map_of dct key of None \<Rightarrow> PNone | Some v \<Rightarrow> v)"

text \<open>
  \<^verbatim>\<open>Fitter.decodeSettingsJSON\<close> (fitter.py, lines 80-101). When what \<^verbatim>\<open>json.loads\<close>
  returns is not a dictionary (a list, or the step object that a hook returned),
  \<^verbatim>\<open>settings.get\<close> is an \<open>AttributeError\<close>; \<^verbatim>\<open>settings["diagnosticLevel"]\<close> on a
  dictionary without that key is a \<open>KeyError\<close>, after the four names have been assigned.
\<close>

definition decodeSettingsJSON :: "pyval \<Rightarrow> decoder \<Rightarrow> fitter \<Rightarrow> (unit, fitter) outcome" where
  "decodeSettingsJSON s hook f =
     (let oldFitterSteps = fitterSteps f in
      (case loads hook s (f\<lparr>fitterSteps := []\<rparr>) of
         Raise e f1 \<Rightarrow> Raise e f1
       | Return settings f1 \<Rightarrow>
           if length (fitterSteps f1) > 0 \<and> body (fitterSteps f1 ! 0) = FitterStepConfig then
             (case settings of
                PDict dct \<Rightarrow>
                  (let f2 = f1\<lparr>modelCoordinatesFieldName := dictGet dct ''modelCoordinatesField'',
                                dataCoordinatesFieldName := dictGet dct ''dataCoordinatesField'',
                                fibreFieldName := dictGet dct ''fibreField'',
                                markerGroupName := dictGet dct ''markerGroup''\<rparr>
                   in (case map_of dct ''diagnosticLevel'' of
                         None \<Rightarrow> Raise KeyError f2
                       | Some level \<Rightarrow> Return () (f2\<lparr>diagnosticLevel := level\<rparr>)))
              | _ \<Rightarrow> Raise AttributeError f1)
           else Raise AssertionError (f1\<lparr>fitterSteps := oldFitterSteps\<rparr>)))"

text \<open>
  \<^verbatim>\<open>FitterStepAlign.decodeSettingsJSONDict\<close> (fitterstepalign.py, lines 70-82) on a newly
  made step: \<^verbatim>\<open>dct = self.encodeSettingsJSONDict(); dct.update(dctIn)\<close> holds for each of
  the five keys the value of \<open>dctIn\<close> if it has the key and the value of the new step
  (lines 60-64) otherwise. What the base class decodes is not represented.
\<close>

definition newAlignSettings :: alignSettings where
  "newAlignSettings =
     \<lparr>alignGroups = PBool False, alignMarkers = PBool False,
      rotation = PList [PNum 0, PNum 0, PNum 0], scale = PNum 1,
      translation = PList [PNum 0, PNum 0, PNum 0]\<rparr>"

definition alignDecodeSettingsJSONDict :: "(string \<times> pyval) list \<Rightarrow> alignSettings" where
  "alignDecodeSettingsJSONDict dctIn =
     (let dct = dictUpdate (alignEncodeSettingsJSONDict newAlignSettings) dctIn in
      \<lparr>alignGroups = dictGet dct ''alignGroups'',
       alignMarkers = dictGet dct ''alignMarkers'',
       rotation = dictGet dct ''rotation'',
       scale = dictGet dct ''scale'',
       translation = dictGet dct ''translation''\<rparr>)"

text \<open>
  \<^verbatim>\<open>Fitter.addFitterStep(fitterStep)\<close> without a reference step (fitter.py, lines 154-164),
  for a new step, which has not run.
\<close>

definition addFitterStep :: "stepBody \<Rightarrow> fitter \<Rightarrow> fitter" where
  "addFitterStep b f = f\<lparr>fitterSteps := fitterSteps f @ [\<lparr>body = b, hasRun = False\<rparr>]\<rparr>"

text \<open>
  Modelled from the spec: the decoder \<^verbatim>\<open>decodeJSONFitterSteps(fitter, dct)\<close> that the
  docstring of \<^verbatim>\<open>decodeSettingsJSON\<close> names is not among the sources. By the spec a step
  record carries a type discriminator, and by the comment of line 90 the decoder populates the
  fitter's step list: a dictionary with the discriminator of a step class becomes a new step
  of that class, added to the fitter and decoded from the dictionary, and the step object is
  returned; any other dictionary is returned as it is.
\<close>

definition decodeJSONFitterSteps :: decoder where
  "decodeJSONFitterSteps f dct =
     (if ''_FitterStepAlign'' \<in> set (map fst dct) then
        Return (PStep (length (fitterSteps f)))
          (addFitterStep (FitterStepAlign (alignDecodeSettingsJSONDict dct)) f)
      else if ''_FitterStepConfig'' \<in> set (map fst dct) then
        Return (PStep (length (fitterSteps f))) (addFitterStep FitterStepConfig f)
      else if ''_FitterStepFit'' \<in> set (map fst dct) then
        Return (PStep (length (fitterSteps f))) (addFitterStep FitterStepFit f)
      else Return (PDict dct) f)"

text \<open>
  A value without dictionaries and step references: \<^verbatim>\<open>None\<close>, a boolean, a number, a
  string, or a list of such values. The settings of the interface (names or \<^verbatim>\<open>None\<close>, a
  level, booleans, a scale and lists of three numbers) are of this kind.
\<close>

fun plain :: "pyval \<Rightarrow> bool" where
  "plain (PDict items) = False"
| "plain (PStep i) = False"
| "plain (PList xs) = list_all plain xs"
| "plain v = True"

definition plainStep :: "fitterStep \<Rightarrow> bool" where
  "plainStep step =
     (case body step of
        FitterStepAlign a \<Rightarrow>
          plain (alignGroups a) \<and> plain (alignMarkers a) \<and> plain (rotation a) \<and> plain (scale a)
          \<and> plain (translation a)
      | _ \<Rightarrow> True)"

definition plainSettings :: "fitter \<Rightarrow> bool" where
  "plainSettings f =
     (plain (modelCoordinatesFieldName f) \<and> plain (dataCoordinatesFieldName f)
      \<and> plain (fibreFieldName f) \<and> plain (markerGroupName f) \<and> plain (diagnosticLevel f)
      \<and> list_all plainStep (fitterSteps f))"

subsection \<open>Export\<close>

text \<open>
  \<^verbatim>\<open>Field.setName\<close> of the Zinc library, as the source itself takes it to behave where it
  renames data groups (fitter.py, lines 361-370): the field is renamed, unless another field of
  the field module has that name already; then the call fails and the field keeps its name.
  \<open>otherFieldNames\<close> are the names of the other fields of the field module, and the value is
  the name of the field after the call.
\<close>

definition setName :: "string list \<Rightarrow> string \<Rightarrow> string \<Rightarrow> string" where
  "setName otherFieldNames name currentName =
     (if name \<in> set otherFieldNames then currentName else name)"

text \<open>
  \<^verbatim>\<open>Fitter.writeModel\<close> (fitter.py, lines 1185-1212). \<open>otherFieldNames\<close> are the names
  of the fields of the field module other than the model coordinates field, and \<open>writeOK\<close>
  says whether \<^verbatim>\<open>self._region.write(sir)\<close> returns \<^verbatim>\<open>RESULT_OK\<close>.
  \<^verbatim>\<open>ChangeManager(None)\<close> and a method call on \<^verbatim>\<open>None\<close> are \<open>AttributeError\<close>, and
  \<^verbatim>\<open>"fitted " + name\<close> for anything but a string is a \<open>TypeError\<close>. The source does not
  look at what either call of \<^verbatim>\<open>setName\<close> returns, and the change manager ends the change
  without undoing anything when the assertion fails.
\<close>

definition writeModel ::
  "string list \<Rightarrow> bool \<Rightarrow> string \<Rightarrow> fitter \<Rightarrow> (unit, fitter) outcome" where
  "writeModel otherFieldNames writeOK modelFileName f =
     (if \<not> fieldmodule f then Raise AttributeError f
      else
        (case modelCoordinatesFieldName f of
           PStr name \<Rightarrow>
             (let outputCoordinatesFieldName = ''fitted '' @ name in
              (case modelCoordinatesField f of
                 None \<Rightarrow> Raise AttributeError f
               | Some currentName \<Rightarrow>
                   let exportName = setName otherFieldNames outputCoordinatesFieldName currentName;
                       f1 = f\<lparr>modelCoordinatesField := Some exportName\<rparr>;
                       f2 = f1\<lparr>written := written f1
                                   @ [(modelFileName, [outputCoordinatesFieldName], exportName)]\<rparr>;
                       f3 = f2\<lparr>modelCoordinatesField :=
                                   Some (setName otherFieldNames name exportName)\<rparr>
                   in if writeOK then Return () f3 else Raise AssertionError f3))
         | _ \<Rightarrow> Raise TypeError f))"


subsection \<open>Examples\<close>

text \<open>
  A fitter with a Config, an Align and a Fit step, loaded, whose model coordinates field is
  named as the settings say; and a new fitter, which has its initial Config step only.
\<close>

definition exampleFitter :: fitter where
  "exampleFitter =
     \<lparr>modelCoordinatesFieldName = PStr ''coordinates'', dataCoordinatesFieldName = PNone,
      fibreFieldName = PNone, markerGroupName = PStr ''marker'', diagnosticLevel = PNum 1,
      fitterSteps =
        [\<lparr>body = FitterStepConfig, hasRun = True\<rparr>,
         \<lparr>body = FitterStepAlign
             \<lparr>alignGroups = PBool True, alignMarkers = PBool False,
              rotation = PList [PNum 1, PNum 2, PNum 3], scale = PNum 2,
              translation = PList [PNum 0, PNum 0, PNum 1]\<rparr>,
          hasRun = True\<rparr>,
         \<lparr>body = FitterStepFit, hasRun = False\<rparr>],
      fieldmodule = True, modelCoordinatesField = Some ''coordinates'', written = []\<rparr>"

definition newFitter :: fitter where
  "newFitter =
     \<lparr>modelCoordinatesFieldName = PNone, dataCoordinatesFieldName = PNone,
      fibreFieldName = PNone, markerGroupName = PNone, diagnosticLevel = PNum 0,
      fitterSteps = [\<lparr>body = FitterStepConfig, hasRun = False\<rparr>],
      fieldmodule = False, modelCoordinatesField = None, written = []\<rparr>"

text \<open>
  A settings document with an initial Config step and no diagnostic level, and one whose only
  step is a Fit step.
\<close>

definition settingsWithoutLevel :: pyval where
  "settingsWithoutLevel =
     PDict [(''modelCoordinatesField'', PStr ''x''),
            (''fitterSteps'', PList [PDict [(''_FitterStepConfig'', PBool True)]])]"

definition settingsWithoutConfig :: pyval where
  "settingsWithoutConfig =
     PDict [(''modelCoordinatesField'', PStr ''x''), (''diagnosticLevel'', PNum 2),
            (''fitterSteps'', PList [PDict [(''_FitterStepFit'', PBool True)]])]"

text \<open>A settings document that names another model coordinates field.\<close>

definition settingsOtherField :: pyval where
  "settingsOtherField =
     PDict [(''modelCoordinatesField'', PStr ''x''), (''diagnosticLevel'', PNum 1),
            (''fitterSteps'', PList [PDict [(''_FitterStepConfig'', PBool True)]])]"

text \<open>
  The example fitter after that document has been decoded into it: the stored name is \<open>x\<close>,
  the field object is the one found at the load, named \<open>coordinates\<close>.
\<close>

definition exampleRenamed :: fitter where
  "exampleRenamed =
     stateOf (decodeSettingsJSON settingsOtherField decodeJSONFitterSteps exampleFitter)"

section \<open>Properties of the step pipeline\<close>

lemma stepRun_hist:
  "\<exists>evs. snd (stateOf (stepRun w i a (steps, hist))) = hist @ evs \<and> EvLoad \<notin> set evs"
  by (cases "w (hist @ [EvRun i a])") (simp_all add: stepRun_def Let_def)

lemma replaySteps_hist:
  "\<exists>evs. snd (stateOf (replaySteps w stem is (steps, hist))) = hist @ evs \<and> EvLoad \<notin> set evs"
proof (induction "is" arbitrary: steps hist)
  case Nil
  then show ?case by simp
next
  case (Cons i rest)
  obtain e1 where e1: "snd (stateOf (stepRun w i (stemArg stem i) (steps, hist))) = hist @ e1"
      "EvLoad \<notin> set e1"
    using stepRun_hist by blast
  show ?case
  proof (cases "stepRun w i (stemArg stem i) (steps, hist)")
    case (Raise e p')
    then show ?thesis using e1 by auto
  next
    case (Return u p')
    obtain steps' where p': "p' = (steps', hist @ e1)"
      using e1 Return by (cases p') auto
    obtain e2 where "snd (stateOf (replaySteps w stem rest (steps', hist @ e1))) = (hist @ e1) @ e2"
        "EvLoad \<notin> set e2"
      using Cons.IH by blast
    then show ?thesis using Return p' e1
      by (intro exI [of _ "e1 @ e2"]) auto
  qed
qed

lemma runRemainingSteps_hist:
  "\<exists>evs. snd (stateOf (runRemainingSteps w stem is (steps, hist))) = hist @ evs
     \<and> EvLoad \<notin> set evs"
proof (induction "is" arbitrary: steps hist)
  case Nil
  then show ?case by simp
next
  case (Cons i rest)
  show ?case
  proof (cases "hasRun (steps ! i)")
    case True
    then show ?thesis using Cons.IH [of steps hist] by simp
  next
    case False
    obtain e1 where e1: "snd (stateOf (stepRun w i (stemArg stem i) (steps, hist))) = hist @ e1"
        "EvLoad \<notin> set e1"
      using stepRun_hist by blast
    show ?thesis
    proof (cases "stepRun w i (stemArg stem i) (steps, hist)")
      case (Raise e p')
      then show ?thesis using e1 False by auto
    next
      case (Return u p')
      obtain steps' where p': "p' = (steps', hist @ e1)"
        using e1 Return by (cases p') auto
      obtain e2 where
        "snd (stateOf (runRemainingSteps w stem rest (steps', hist @ e1))) = (hist @ e1) @ e2"
        "EvLoad \<notin> set e2"
        using Cons.IH by blast
      then show ?thesis using Return p' e1 False
        by (intro exI [of _ "e1 @ e2"]) auto
    qed
  qed
qed

lemma load_hist:
  "\<exists>evs. snd (stateOf (load w (steps, hist))) = hist @ EvLoad # evs"
proof (cases "w (hist @ [EvLoad])")
  case None
  show ?thesis
  proof (cases "steps = []")
    case True
    then show ?thesis using None by (simp add: load_def Let_def)
  next
    case False
    obtain e1 where
      "snd (stateOf (stepRun w 0 None (map (setHasRun False) steps, hist @ [EvLoad])))
        = (hist @ [EvLoad]) @ e1"
      using stepRun_hist by blast
    then show ?thesis using None False by (simp add: load_def Let_def)
  qed
next
  case (Some e)
  then show ?thesis by (simp add: load_def Let_def)
qed

lemma run_hist:
  assumes "endIndexOf steps endStep = Inr k"
  shows "\<exists>evs. snd (stateOf (run w endStep stem (steps, hist))) = hist @ evs
           \<and> (EvLoad \<in> set evs \<longleftrightarrow> reloadNeeded steps k)"
proof (cases "reloadNeeded steps k")
  case True
  then have c: "hasRun (steps ! k) \<and> int k < int (length steps) - 1 \<and> hasRun (steps ! (k + 1))"
    by (auto simp: reloadNeeded_def)
  obtain e1 where e1: "snd (stateOf (load w (steps, hist))) = hist @ EvLoad # e1"
    using load_hist by blast
  show ?thesis
  proof (cases "load w (steps, hist)")
    case (Raise e p')
    then show ?thesis using assms c e1 True by (simp add: run_def)
  next
    case (Return u p')
    obtain steps' where p': "p' = (steps', hist @ EvLoad # e1)"
      using e1 Return by (cases p') auto
    obtain e2 where e2:
      "snd (stateOf (replaySteps w stem [1..<k + 1] (steps', hist @ EvLoad # e1)))
         = (hist @ EvLoad # e1) @ e2"
      using replaySteps_hist by blast
    show ?thesis
      using assms c True Return p' e2
      by (cases "replaySteps w stem [1..<k + 1] (steps', hist @ EvLoad # e1)")
         (auto simp: run_def)
  qed
next
  case False
  then have c: "\<not> (hasRun (steps ! k) \<and> int k < int (length steps) - 1 \<and> hasRun (steps ! (k + 1)))"
    by (auto simp: reloadNeeded_def)
  show ?thesis
  proof (cases "k = 0")
    case True
    obtain e1 where "snd (stateOf (stepRun w 0 None (steps, hist))) = hist @ e1"
        "EvLoad \<notin> set e1"
      using stepRun_hist by blast
    then show ?thesis using assms c False True
      by (cases "stepRun w 0 None (steps, hist)") (auto simp: run_def)
  next
    case k: False
    obtain e1 where "snd (stateOf (runRemainingSteps w stem [1..<k + 1] (steps, hist))) = hist @ e1"
        "EvLoad \<notin> set e1"
      using runRemainingSteps_hist by blast
    then show ?thesis using assms c False k
      by (cases "runRemainingSteps w stem [1..<k + 1] (steps, hist)") (auto simp: run_def)
  qed
qed

lemma run_returns:
  assumes "endIndexOf steps endStep = Inr k"
    and "run w endStep stem (steps, hist) = Return b p'"
  shows "b = reloadNeeded steps k"
proof (cases "reloadNeeded steps k")
  case True
  then have c: "hasRun (steps ! k) \<and> int k < int (length steps) - 1 \<and> hasRun (steps ! (k + 1))"
    by (auto simp: reloadNeeded_def)
  show ?thesis using assms c True
    by (auto simp: run_def split: outcome.splits)
next
  case False
  then have c: "\<not> (hasRun (steps ! k) \<and> int k < int (length steps) - 1 \<and> hasRun (steps ! (k + 1)))"
    by (auto simp: reloadNeeded_def)
  show ?thesis using assms c False
    by (auto simp: run_def split: outcome.splits if_splits)
qed

lemma stepRun_ok:
  "\<forall>l. w l = None \<Longrightarrow>
   stepRun w i a (steps, hist) = Return () (steps[i := setHasRun True (steps ! i)], hist @ [EvRun i a])"
  by (simp add: stepRun_def Let_def)

lemma replaySteps_ok:
  "\<forall>l. w l = None \<Longrightarrow>
   replaySteps w stem is (steps, hist) =
     Return () (markRun steps is, hist @ map (\<lambda>i. EvRun i (stemArg stem i)) is)"
  by (induction "is" arbitrary: steps hist) (simp_all add: stepRun_ok markRun_def)

lemma runRemainingSteps_ok:
  "\<forall>l. w l = None \<Longrightarrow> \<exists>p'. runRemainingSteps w stem is (steps, hist) = Return () p'"
  by (induction "is" arbitrary: steps hist) (simp_all add: stepRun_ok)

lemma markRun_length: "length (markRun steps is) = length steps"
  unfolding markRun_def by (induction "is" arbitrary: steps) simp_all

lemma markRun_upt_nth:
  "b \<le> length steps \<Longrightarrow> i < length steps \<Longrightarrow>
   markRun steps [a..<b] ! i = (if a \<le> i \<and> i < b then setHasRun True (steps ! i) else steps ! i)"
proof (induction b)
  case 0
  then show ?case by (simp add: markRun_def)
next
  case (Suc b)
  show ?case
  proof (cases "a \<le> b")
    case True
    have "markRun steps [a..<Suc b] = (markRun steps [a..<b])[b := setHasRun True (markRun steps [a..<b] ! b)]"
      using True by (simp add: markRun_def)
    then show ?thesis using Suc True
      by (auto simp: markRun_length nth_list_update)
  next
    case False
    then show ?thesis by (auto simp: markRun_def)
  qed
qed

lemma setHasRun_twice: "setHasRun b (setHasRun c s) = setHasRun b s"
  by (simp add: setHasRun_def)

lemma reload_flags:
  assumes "k < length steps"
  shows "markRun ((map (setHasRun False) steps)[0 := setHasRun True (map (setHasRun False) steps ! 0)])
           [1..<k + 1] = flagsAfterReload steps k"
proof (rule nth_equalityI)
  show "length (markRun ((map (setHasRun False) steps)[0 := setHasRun True (map (setHasRun False) steps ! 0)]) [1..<k + 1])
      = length (flagsAfterReload steps k)"
    by (simp add: markRun_length flagsAfterReload_def)
next
  fix i
  assume "i < length (markRun ((map (setHasRun False) steps)[0 := setHasRun True (map (setHasRun False) steps ! 0)]) [1..<k + 1])"
  then have i: "i < length steps" by (simp add: markRun_length)
  show "markRun ((map (setHasRun False) steps)[0 := setHasRun True (map (setHasRun False) steps ! 0)]) [1..<k + 1] ! i
      = flagsAfterReload steps k ! i"
  proof (cases "i = 0")
    case True
    then show ?thesis using i assms
      by (simp add: markRun_upt_nth flagsAfterReload_def nth_enumerate_eq setHasRun_twice
          del: upt_Suc)
  next
    case False
    then show ?thesis using i assms
      by (auto simp add: markRun_upt_nth flagsAfterReload_def nth_enumerate_eq setHasRun_twice
          simp del: upt_Suc)
  qed
qed

lemma run_reload_ok:
  assumes "endIndexOf steps endStep = Inr k" and "\<forall>l. w l = None" and "reloadNeeded steps k"
  shows "run w endStep stem (steps, hist) =
     Return True (flagsAfterReload steps k,
       hist @ EvLoad # EvRun 0 None # map (\<lambda>i. EvRun i (stemArg stem i)) [1..<k + 1])"
proof -
  have c: "hasRun (steps ! k) \<and> int k < int (length steps) - 1 \<and> hasRun (steps ! (k + 1))"
    using assms(3) by (auto simp: reloadNeeded_def)
  have k: "k < length steps" and ne: "steps \<noteq> []"
    using assms(3) by (auto simp: reloadNeeded_def)
  have ld: "load w (steps, hist) = Return ()
      ((map (setHasRun False) steps)[0 := setHasRun True (map (setHasRun False) steps ! 0)],
       hist @ [EvLoad, EvRun 0 None])"
    using assms(2) ne by (simp add: load_def Let_def stepRun_ok)
  show ?thesis
    using assms(1) c ld replaySteps_ok [OF assms(2)] reload_flags [OF k]
    by (simp add: run_def)
qed

lemma run_no_reload_ok:
  assumes "endIndexOf steps endStep = Inr k" and "\<forall>l. w l = None" and "\<not> reloadNeeded steps k"
  shows "\<exists>p'. run w endStep stem (steps, hist) = Return False p'"
proof -
  have c: "\<not> (hasRun (steps ! k) \<and> int k < int (length steps) - 1 \<and> hasRun (steps ! (k + 1)))"
    using assms(3) by (auto simp: reloadNeeded_def)
  obtain p' where "runRemainingSteps w stem [1..<k + 1] (steps, hist) = Return () p'"
    using runRemainingSteps_ok [OF assms(2)] by blast
  then show ?thesis using assms(1) c
    by (cases "k = 0") (auto simp: run_def stepRun_ok [OF assms(2)])
qed


text \<open>
  Claim C1, as amended. For every pipeline and every target step that \<^verbatim>\<open>run\<close> accepts,
  \<^verbatim>\<open>run\<close> reloads exactly when the target step has already run and the step immediately
  after it has also run: the rebuilding of the region is among the calls \<^verbatim>\<open>run\<close> makes
  exactly in that case, and a boolean that \<^verbatim>\<open>run\<close> returns is true exactly in that case.
  When no call raises, \<^verbatim>\<open>run\<close> does return; in the reload case it has then rebuilt the
  region, cleared every flag, run the initial Config step and then every step from the second
  through the target in order, and the flags are set up to the target and clear beyond it.
\<close>

theorem run_reloads_iff_next_step_has_run:
  assumes "endIndexOf steps endStep = Inr k"
  shows "(\<exists>evs. snd (stateOf (run w endStep stem (steps, hist))) = hist @ evs
            \<and> (EvLoad \<in> set evs \<longleftrightarrow> reloadNeeded steps k))
    \<and> (\<forall>b p'. run w endStep stem (steps, hist) = Return b p' \<longrightarrow> b = reloadNeeded steps k)
    \<and> ((\<forall>l. w l = None) \<longrightarrow>
         (if reloadNeeded steps k then
            run w endStep stem (steps, hist) =
              Return True (flagsAfterReload steps k,
                hist @ EvLoad # EvRun 0 None # map (\<lambda>i. EvRun i (stemArg stem i)) [1..<k + 1])
          else (\<exists>p'. run w endStep stem (steps, hist) = Return False p')))"
proof (intro conjI allI impI)
  show "\<exists>evs. snd (stateOf (run w endStep stem (steps, hist))) = hist @ evs
            \<and> (EvLoad \<in> set evs \<longleftrightarrow> reloadNeeded steps k)"
    by (rule run_hist [OF assms])
next
  fix b p'
  assume "run w endStep stem (steps, hist) = Return b p'"
  then show "b = reloadNeeded steps k"
    by (rule run_returns [OF assms])
next
  assume w: "\<forall>l. w l = None"
  show "if reloadNeeded steps k then
            run w endStep stem (steps, hist) =
              Return True (flagsAfterReload steps k,
                hist @ EvLoad # EvRun 0 None # map (\<lambda>i. EvRun i (stemArg stem i)) [1..<k + 1])
          else (\<exists>p'. run w endStep stem (steps, hist) = Return False p')"
  proof (cases "reloadNeeded steps k")
    case True
    then show ?thesis using run_reload_ok [OF assms w True] by simp
  next
    case False
    then show ?thesis using run_no_reload_ok [OF assms w False] by simp
  qed
qed

theorem run_reloads_iff_next_step_has_run_witness:
  "endIndexOf [\<lparr>body = FitterStepConfig, hasRun = True\<rparr>, \<lparr>body = FitterStepFit, hasRun = True\<rparr>,
       \<lparr>body = FitterStepFit, hasRun = True\<rparr>, \<lparr>body = FitterStepFit, hasRun = True\<rparr>] (Some 1) = Inr 1
   \<and> reloadNeeded [\<lparr>body = FitterStepConfig, hasRun = True\<rparr>, \<lparr>body = FitterStepFit, hasRun = True\<rparr>,
       \<lparr>body = FitterStepFit, hasRun = True\<rparr>, \<lparr>body = FitterStepFit, hasRun = True\<rparr>] 1
   \<and> run (\<lambda>l. None) (Some 1) (Some ''m'')
       ([\<lparr>body = FitterStepConfig, hasRun = True\<rparr>, \<lparr>body = FitterStepFit, hasRun = True\<rparr>,
         \<lparr>body = FitterStepFit, hasRun = True\<rparr>, \<lparr>body = FitterStepFit, hasRun = True\<rparr>], [])
     = Return True
       ([\<lparr>body = FitterStepConfig, hasRun = True\<rparr>, \<lparr>body = FitterStepFit, hasRun = True\<rparr>,
         \<lparr>body = FitterStepFit, hasRun = False\<rparr>, \<lparr>body = FitterStepFit, hasRun = False\<rparr>],
        [EvLoad, EvRun 0 None, EvRun 1 (Some (''m'', 1))])"
  using run_reloads_iff_next_step_has_run [of
      "[\<lparr>body = FitterStepConfig, hasRun = True\<rparr>, \<lparr>body = FitterStepFit, hasRun = True\<rparr>,
       \<lparr>body = FitterStepFit, hasRun = True\<rparr>, \<lparr>body = FitterStepFit, hasRun = True\<rparr>]"
      "Some 1" 1 "\<lambda>l. None" "Some ''m''" "[]"]
  by (simp add: endIndexOf_def reloadNeeded_def flagsAfterReload_def setHasRun_def stemArg_def
      enumerate_eq_zip)

text \<open>
  Claim C1 as stated fails: with four steps of which the first, second and fourth have run, the
  target (the second step) has run and a step after it (the fourth) has run, yet
  \<^verbatim>\<open>run\<close> makes no call at all and returns false. Such a list arises when a step is
  inserted after the target of a pipeline that has been run to its end.
\<close>

theorem run_some_later_step_counterexample:
  "hasRun ([\<lparr>body = FitterStepConfig, hasRun = True\<rparr>, \<lparr>body = FitterStepFit, hasRun = True\<rparr>,
       \<lparr>body = FitterStepFit, hasRun = False\<rparr>, \<lparr>body = FitterStepFit, hasRun = True\<rparr>] ! 1)
   \<and> hasRun ([\<lparr>body = FitterStepConfig, hasRun = True\<rparr>, \<lparr>body = FitterStepFit, hasRun = True\<rparr>,
       \<lparr>body = FitterStepFit, hasRun = False\<rparr>, \<lparr>body = FitterStepFit, hasRun = True\<rparr>] ! 3)
   \<and> run (\<lambda>l. None) (Some 1) None
       ([\<lparr>body = FitterStepConfig, hasRun = True\<rparr>, \<lparr>body = FitterStepFit, hasRun = True\<rparr>,
         \<lparr>body = FitterStepFit, hasRun = False\<rparr>, \<lparr>body = FitterStepFit, hasRun = True\<rparr>], [])
     = Return False
       ([\<lparr>body = FitterStepConfig, hasRun = True\<rparr>, \<lparr>body = FitterStepFit, hasRun = True\<rparr>,
         \<lparr>body = FitterStepFit, hasRun = False\<rparr>, \<lparr>body = FitterStepFit, hasRun = True\<rparr>], [])"
  by (simp add: run_def endIndexOf_def)

section \<open>Properties of the alignment solver\<close>

lemma upt_0_4: "[0..<4] = [0, 1, 2, 3]"
  by (simp add: upt_rec)

lemma upt_0_2: "[0..<2] = [0, 1]"
  by (simp add: upt_rec)

lemma gridIndices_eq:
  "gridIndices =
     [(0, 0, 0), (1, 0, 0), (2, 0, 0), (3, 0, 0), (0, 1, 0), (1, 1, 0), (2, 1, 0), (3, 1, 0),
      (0, 2, 0), (1, 2, 0), (2, 2, 0), (3, 2, 0), (0, 3, 0), (1, 3, 0), (2, 3, 0), (3, 3, 0),
      (0, 0, 1), (1, 0, 1), (2, 0, 1), (3, 0, 1), (0, 2, 1), (1, 2, 1), (2, 2, 1), (3, 2, 1)]"
  by (simp add: gridIndices_def upt_0_4 upt_0_2)

lemma gridAngles_length: "length gridAngles = 24"
  by (simp add: gridAngles_def gridIndices_eq)

lemma gridAngles_ne: "gridAngles \<noteq> []"
  by (simp add: gridAngles_def gridIndices_eq)

lemma gridIndices_mem:
  "(z, y, x) \<in> set gridIndices \<longleftrightarrow>
     (x = 0 \<and> y < 4 \<and> z < 4) \<or> (x = 1 \<and> (y = 0 \<or> y = 2) \<and> z < 4)"
  by (auto simp: gridIndices_def upt_0_2 image_iff)

lemma gridIndices_set:
  "set gridIndices =
     {(z, y, x). x < 2 \<and> z < 4 \<and> (if x = 0 then y < 4 else y = 0 \<or> y = 2)}"
proof -
  have "x < 2 \<and> z < 4 \<and> (if x = 0 then y < 4 else y = 0 \<or> y = 2) \<longleftrightarrow>
     (x = 0 \<and> y < 4 \<and> z < 4) \<or> (x = 1 \<and> (y = 0 \<or> y = 2) \<and> z < 4)" for x y z :: nat
    by auto
  then show ?thesis using gridIndices_mem by auto
qed

text \<open>
  The loop keeps a candidate that was evaluated and whose objective value is least among
  those seen so far.
\<close>

definition leastOver ::
  "(vec3 \<Rightarrow> vec3 \<Rightarrow> real) \<Rightarrow> (vec3 \<Rightarrow> vec3) \<Rightarrow> vec3 set \<Rightarrow> real \<times> vec3 \<times> vec3 \<Rightarrow> bool" where
  "leastOver objective translationOf S best =
     (case best of (v, a, t) \<Rightarrow>
        a \<in> S \<and> t = translationOf a \<and> v = objective a t
        \<and> (\<forall>a' \<in> S. v \<le> objective a' (translationOf a')))"

lemma preAlign_Some:
  assumes "leastOver objective translationOf S best"
  shows "\<exists>best'. preAlign objective translationOf cs (Some best) = Some best'
           \<and> leastOver objective translationOf (S \<union> set cs) best'"
  using assms
proof (induction cs arbitrary: S best)
  case Nil
  then show ?case by simp
next
  case (Cons c cs)
  obtain v a t where best: "best = (v, a, t)" by (cases best) auto
  let ?t = "translationOf c"
  let ?v = "objective c ?t"
  show ?case
  proof (cases "?v < v")
    case True
    have "leastOver objective translationOf (insert c S) (?v, c, ?t)"
      using Cons.prems True unfolding leastOver_def best by (auto intro: less_imp_le order_trans)
    from Cons.IH [OF this] show ?thesis
      using True by (simp add: best Let_def)
  next
    case False
    have "leastOver objective translationOf (insert c S) best"
      using Cons.prems False unfolding leastOver_def best by auto
    from Cons.IH [OF this] show ?thesis
      using False by (simp add: best Let_def)
  qed
qed

lemma preAlign_None:
  assumes "cs \<noteq> []"
  shows "\<exists>best. preAlign objective translationOf cs None = Some best
           \<and> leastOver objective translationOf (set cs) best"
proof -
  obtain c rest where cs: "cs = c # rest" using assms by (cases cs) auto
  have "leastOver objective translationOf {c} (objective c (translationOf c), c, translationOf c)"
    by (simp add: leastOver_def)
  from preAlign_Some [OF this, of rest] show ?thesis
    by (simp add: cs Let_def)
qed

lemma discreteSearch_least:
  "\<exists>best. discreteSearch lib positions modelCM translationOffset scaleFactor = Some best
     \<and> leastOver (evaluateObjective lib positions scaleFactor)
         (candidateTranslation lib translationOffset scaleFactor modelCM) (set gridAngles) best"
proof -
  show ?thesis unfolding discreteSearch_def by (rule preAlign_None [OF gridAngles_ne])
qed

lemma optimiseAlignment_too_few:
  "length pointMap < 3 \<Longrightarrow> optimiseAlignment lib pointMap step = Raise AssertionError step"
  by (simp add: optimiseAlignment_def)

text \<open>
  With three or more points and a model of non-zero extent, the optimisation is started from
  what the discrete search found, and its outcome is stored.
\<close>

lemma optimiseAlignment_enough:
  assumes "3 \<le> length pointMap"
    and "pointMap = (name0, (model0, data0)) # rest"
    and "alignmentSeed model0 data0 (map snd pointMap)
           = (modelCM, translationOffset, maxDataSpan, maxModelSpan)"
    and "maxModelSpan \<noteq> 0"
  shows "\<exists>v a t. discreteSearch lib (map snd pointMap) modelCM translationOffset
                    (maxDataSpan / maxModelSpan) = Some (v, a, t)
           \<and> a \<in> set gridAngles
           \<and> optimiseAlignment lib pointMap step =
               storeResult (optimise lib (map snd pointMap) a (maxDataSpan / maxModelSpan) t) step"
proof -
  obtain best where b: "discreteSearch lib (map snd pointMap) modelCM translationOffset
                    (maxDataSpan / maxModelSpan) = Some best"
    and l: "leastOver (evaluateObjective lib (map snd pointMap) (maxDataSpan / maxModelSpan))
         (candidateTranslation lib translationOffset (maxDataSpan / maxModelSpan) modelCM)
         (set gridAngles) best"
    using discreteSearch_least by blast
  obtain v a t where best: "best = (v, a, t)" by (cases best) auto
  have "optimiseAlignment lib pointMap step =
               storeResult (optimise lib (map snd pointMap) a (maxDataSpan / maxModelSpan) t) step"
    using assms(1,3,4) b unfolding best optimiseAlignment_def assms(2)
    by (simp add: Let_def)
  then show ?thesis using b l unfolding best leastOver_def by auto
qed

text \<open>
  Claim C2. The discrete rotation search runs over the fixed grid of 24 (at most 32) triples
  (azimuth, elevation, roll), each angle a number of quarter turns (\<open>\<pi>/2\<close> radians, 90
  degrees): azimuth 0 to 3, roll 0 or 1, and elevation 0 to 3 when the roll is 0 but 0 or 2
  when it is not. For every set of correspondences and every seed it ends with a triple of
  the grid, with the translation of that triple, the seed translation minus the scale times
  (rotation matrix times model centroid minus model centroid), and with the objective value at
  that triple and translation, which is no greater than the objective value of any triple of
  the grid with its translation. When the alignment has three or more points and a model of
  non-zero extent, the continuous optimisation is started from the rotation and translation
  that the search over these points and their seed has ended with.
\<close>

theorem discreteSearch_minimum_over_grid:
  "length gridAngles = 24 \<and> length gridAngles \<le> 32
   \<and> gridAngles = map rotationAnglesOf gridIndices
   \<and> set gridIndices =
       {(z, y, x). x < 2 \<and> z < 4 \<and> (if x = 0 then y < 4 else y = 0 \<or> y = 2)}
   \<and> (\<exists>v a t. discreteSearch lib positions modelCM translationOffset scaleFactor = Some (v, a, t)
         \<and> a \<in> set gridAngles
         \<and> t = sub_v translationOffset
                 (mult_v (sub_v (matrix_vector_mult (euler_to_rotation_matrix lib a) modelCM)
                    modelCM) scaleFactor)
         \<and> v = evaluateObjective lib positions scaleFactor a t
         \<and> (\<forall>a' \<in> set gridAngles.
               v \<le> evaluateObjective lib positions scaleFactor a'
                     (sub_v translationOffset
                        (mult_v (sub_v (matrix_vector_mult (euler_to_rotation_matrix lib a')
                           modelCM) modelCM) scaleFactor))))
   \<and> (3 \<le> length pointMap \<and> pointMap = (name0, (model0, data0)) # rest
        \<and> alignmentSeed model0 data0 (map snd pointMap) = (cm, offset, maxDataSpan, maxModelSpan)
        \<and> maxModelSpan \<noteq> 0 \<longrightarrow>
        (\<exists>v a t. discreteSearch lib (map snd pointMap) cm offset (maxDataSpan / maxModelSpan)
                   = Some (v, a, t)
           \<and> optimiseAlignment lib pointMap step =
               storeResult (optimise lib (map snd pointMap) a (maxDataSpan / maxModelSpan) t)
                 step))"
proof -
  obtain best where b: "discreteSearch lib positions modelCM translationOffset scaleFactor = Some best"
    and l: "leastOver (evaluateObjective lib positions scaleFactor)
         (candidateTranslation lib translationOffset scaleFactor modelCM) (set gridAngles) best"
    using discreteSearch_least by blast
  obtain v a t where best: "best = (v, a, t)" by (cases best) auto
  have tr: "candidateTranslation lib translationOffset scaleFactor modelCM a' =
      sub_v translationOffset
        (mult_v (sub_v (matrix_vector_mult (euler_to_rotation_matrix lib a') modelCM) modelCM)
           scaleFactor)" for a'
    by (simp add: candidateTranslation_def Let_def)
  have ex: "\<exists>v a t. discreteSearch lib positions modelCM translationOffset scaleFactor = Some (v, a, t)
         \<and> a \<in> set gridAngles
         \<and> t = sub_v translationOffset
                 (mult_v (sub_v (matrix_vector_mult (euler_to_rotation_matrix lib a) modelCM)
                    modelCM) scaleFactor)
         \<and> v = evaluateObjective lib positions scaleFactor a t
         \<and> (\<forall>a' \<in> set gridAngles.
               v \<le> evaluateObjective lib positions scaleFactor a'
                     (sub_v translationOffset
                        (mult_v (sub_v (matrix_vector_mult (euler_to_rotation_matrix lib a')
                           modelCM) modelCM) scaleFactor)))"
    using b l unfolding best leastOver_def tr by auto
  have len: "length gridAngles \<le> 32" using gridAngles_length by simp
  have start: "3 \<le> length pointMap \<and> pointMap = (name0, (model0, data0)) # rest
        \<and> alignmentSeed model0 data0 (map snd pointMap) = (cm, offset, maxDataSpan, maxModelSpan)
        \<and> maxModelSpan \<noteq> 0 \<longrightarrow>
        (\<exists>v a t. discreteSearch lib (map snd pointMap) cm offset (maxDataSpan / maxModelSpan)
                   = Some (v, a, t)
           \<and> optimiseAlignment lib pointMap step =
               storeResult (optimise lib (map snd pointMap) a (maxDataSpan / maxModelSpan) t)
                 step)"
  proof (intro impI)
    assume h: "3 \<le> length pointMap \<and> pointMap = (name0, (model0, data0)) # rest
        \<and> alignmentSeed model0 data0 (map snd pointMap) = (cm, offset, maxDataSpan, maxModelSpan)
        \<and> maxModelSpan \<noteq> 0"
    then have h1: "3 \<le> length pointMap" and h2: "pointMap = (name0, (model0, data0)) # rest"
      and h3: "alignmentSeed model0 data0 (map snd pointMap)
                 = (cm, offset, maxDataSpan, maxModelSpan)"
      and h4: "maxModelSpan \<noteq> 0" by blast+
    from optimiseAlignment_enough [OF h1 h2 h3 h4, of lib step]
    show "\<exists>v a t. discreteSearch lib (map snd pointMap) cm offset (maxDataSpan / maxModelSpan)
                   = Some (v, a, t)
           \<and> optimiseAlignment lib pointMap step =
               storeResult (optimise lib (map snd pointMap) a (maxDataSpan / maxModelSpan) t)
                 step" by blast
  qed
  show ?thesis
    by (intro conjI)
       (rule gridAngles_length, rule len, rule gridAngles_def, rule gridIndices_set, rule ex,
        rule start)
qed


theorem discreteSearch_minimum_over_grid_witness:
  "rotationAnglesOf (2, 0, 0) \<in> set gridAngles
   \<and> evaluateObjective exampleLibrary examplePositions 1 (rotationAnglesOf (2, 0, 0))
     (sub_v (-2/3, -2/3, 0)
        (mult_v (sub_v (matrix_vector_mult
           (euler_to_rotation_matrix exampleLibrary (rotationAnglesOf (2, 0, 0))) (1/3, 1/3, 1/3))
           (1/3, 1/3, 1/3)) 1)) = 0
   \<and> (\<exists>v a t. discreteSearch exampleLibrary examplePositions (1/3, 1/3, 1/3) (-2/3, -2/3, 0) 1
                 = Some (v, a, t) \<and> a \<in> set gridAngles \<and> v \<le> 0)"
proof -
  have "(2, 0, 0) \<in> set gridIndices" by (simp add: gridIndices_mem)
  then have mem: "rotationAnglesOf (2, 0, 0) \<in> set gridAngles"
    unfolding gridAngles_def set_map by (rule imageI)
  have ev: "evaluateObjective exampleLibrary examplePositions 1 (rotationAnglesOf (2, 0, 0))
     (sub_v (-2/3, -2/3, 0)
        (mult_v (sub_v (matrix_vector_mult
           (euler_to_rotation_matrix exampleLibrary (rotationAnglesOf (2, 0, 0))) (1/3, 1/3, 1/3))
           (1/3, 1/3, 1/3)) 1)) = 0"
    by (simp add: exampleLibrary_def examplePositions_def evaluateObjective_def transformed_def)
  show ?thesis
    using discreteSearch_minimum_over_grid [where lib = exampleLibrary
        and positions = examplePositions and modelCM = "(1/3, 1/3, 1/3)"
        and translationOffset = "(-2/3, -2/3, 0)" and scaleFactor = 1] mem ev
    by (metis (no_types, lifting))
qed

text \<open>
  Claim C6. For every correspondence map with fewer than three entries the alignment
  optimisation fails with an assertion error and leaves the step as it was, its rotation, scale
  and translation included; and so does the automatic alignment whenever the map it has built
  has fewer than three entries.
\<close>

theorem optimiseAlignment_requires_three:
  "(length pointMap < 3 \<longrightarrow> optimiseAlignment lib pointMap step = Raise AssertionError step)
   \<and> (buildPointMap inputs level step = Inr pointMap \<and> length pointMap < 3 \<longrightarrow>
        doAutoAlign lib inputs level step = Raise AssertionError step)"
  by (simp add: optimiseAlignment_too_few doAutoAlign_def)

theorem optimiseAlignment_requires_three_witness:
  "length [(''A'', ((1, 0, 0), (-1, 0, 0))), (''B'', ((0, 0, 1), (0, 0, 1)))] < (3::nat)
   \<and> optimiseAlignment exampleLibrary
        [(''A'', ((1, 0, 0), (-1, 0, 0))), (''B'', ((0, 0, 1), (0, 0, 1)))] exampleAlignStep
       = Raise AssertionError exampleAlignStep
   \<and> buildPointMap exampleInputs 1 exampleAlignStep
       = Inr [(''A'', ((1, 0, 0), (-1, 0, 0))), (''B'', ((0, 0, 1), (0, 0, 1)))]
   \<and> doAutoAlign exampleLibrary exampleInputs 1 exampleAlignStep
       = Raise AssertionError exampleAlignStep
   \<and> (\<exists>a t. optimiseAlignment exampleLibrary
          [(''A'', ((1, 0, 0), (-1, 0, 0))), (''a'', ((0, 1, 0), (0, -1, 0))),
           (''B'', ((0, 0, 1), (0, 0, 1)))] exampleAlignStep
        = Return () (exampleAlignStep\<lparr>rotation := listOf a, scale := PNum 1,
                                       translation := listOf t\<rparr>))"
proof -
  have bp: "buildPointMap exampleInputs 1 exampleAlignStep
       = Inr [(''A'', ((1, 0, 0), (-1, 0, 0))), (''B'', ((0, 0, 1), (0, 0, 1)))]"
    by code_simp
  have seed: "alignmentSeed (1, 0, 0) (-1, 0, 0)
      (map snd [(''A'', ((1, 0, 0), (-1, 0, 0))), (''a'', ((0, 1, 0), (0, -1, 0))),
           (''B'', ((0, 0, 1), (0, 0, 1)))])
      = ((1/3, 1/3, 1/3), (-2/3, -2/3, 0), 1, 1)"
    by (simp add: alignmentSeed_def Let_def)
  have three: "\<exists>a t. optimiseAlignment exampleLibrary
          [(''A'', ((1, 0, 0), (-1, 0, 0))), (''a'', ((0, 1, 0), (0, -1, 0))),
           (''B'', ((0, 0, 1), (0, 0, 1)))] exampleAlignStep
        = Return () (exampleAlignStep\<lparr>rotation := listOf a, scale := PNum 1,
                                       translation := listOf t\<rparr>)"
  proof -
    let ?pm = "[(''A'', ((1, 0, 0), (-1, 0, 0))), (''a'', ((0, 1, 0), (0, -1, 0))),
           (''B'', ((0, 0, 1), (0, 0, 1)))]"
    have l: "3 \<le> length ?pm" by simp
    have c: "?pm = (''A'', ((1, 0, 0), (-1, 0, 0)))
                 # [(''a'', ((0, 1, 0), (0, -1, 0))), (''B'', ((0, 0, 1), (0, 0, 1)))]" by simp
    have nz: "(1::real) \<noteq> 0" by simp
    obtain v a t where "optimiseAlignment exampleLibrary ?pm exampleAlignStep =
        storeResult (optimise exampleLibrary (map snd ?pm) a (1 / 1) t) exampleAlignStep"
      using optimiseAlignment_enough [OF l c seed nz, of exampleLibrary exampleAlignStep]
      by blast
    then have "optimiseAlignment exampleLibrary ?pm exampleAlignStep =
        Return () (exampleAlignStep\<lparr>rotation := listOf a, scale := PNum 1,
                                       translation := listOf t\<rparr>)"
      by (cases t) (simp add: storeResult_def exampleLibrary_def)
    then show ?thesis by blast
  qed
  show ?thesis
    using optimiseAlignment_requires_three [of
        "[(''A'', ((1, 0, 0), (-1, 0, 0))), (''B'', ((0, 0, 1), (0, 0, 1)))]"
        exampleLibrary exampleAlignStep exampleInputs 1] bp three
    by simp
qed

text \<open>
  Claim C9 fails on the code. For a model with the markers \<open>A\<close>, \<open>a\<close> and \<open>B\<close> and data
  with the markers \<open>a\<close> and \<open>b\<close>, the map built at diagnostic level 0 has three entries (both
  \<open>A\<close> and \<open>a\<close> are matched with the data marker \<open>a\<close>) and the alignment is computed, while
  at diagnostic level 1 the matched data marker is removed from the dictionary, the map has two
  entries and the alignment fails its assertion.
\<close>

theorem buildPointMap_depends_on_diagnosticLevel:
  "buildPointMap exampleInputs 0 exampleAlignStep
       = Inr [(''A'', ((1, 0, 0), (-1, 0, 0))), (''a'', ((0, 1, 0), (-1, 0, 0))),
              (''B'', ((0, 0, 1), (0, 0, 1)))]
   \<and> buildPointMap exampleInputs 1 exampleAlignStep
       = Inr [(''A'', ((1, 0, 0), (-1, 0, 0))), (''B'', ((0, 0, 1), (0, 0, 1)))]
   \<and> (\<exists>a t. doAutoAlign exampleLibrary exampleInputs 0 exampleAlignStep
        = Return () (exampleAlignStep\<lparr>rotation := listOf a, scale := PNum 1,
                                       translation := listOf t\<rparr>))
   \<and> doAutoAlign exampleLibrary exampleInputs 1 exampleAlignStep
       = Raise AssertionError exampleAlignStep"
proof -
  have b0: "buildPointMap exampleInputs 0 exampleAlignStep
       = Inr [(''A'', ((1, 0, 0), (-1, 0, 0))), (''a'', ((0, 1, 0), (-1, 0, 0))),
              (''B'', ((0, 0, 1), (0, 0, 1)))]"
    by code_simp
  have b1: "buildPointMap exampleInputs 1 exampleAlignStep
       = Inr [(''A'', ((1, 0, 0), (-1, 0, 0))), (''B'', ((0, 0, 1), (0, 0, 1)))]"
    by code_simp
  have seed: "alignmentSeed (1, 0, 0) (-1, 0, 0)
      (map snd [(''A'', ((1, 0, 0), (-1, 0, 0))), (''a'', ((0, 1, 0), (-1, 0, 0))),
              (''B'', ((0, 0, 1), (0, 0, 1)))])
      = ((1/3, 1/3, 1/3), (-1, -1/3, 0), 1, 1)"
    by (simp add: alignmentSeed_def Let_def)
  have d0: "\<exists>a t. doAutoAlign exampleLibrary exampleInputs 0 exampleAlignStep
        = Return () (exampleAlignStep\<lparr>rotation := listOf a, scale := PNum 1,
                                       translation := listOf t\<rparr>)"
  proof -
    let ?pm = "[(''A'', ((1, 0, 0), (-1, 0, 0))), (''a'', ((0, 1, 0), (-1, 0, 0))),
              (''B'', ((0, 0, 1), (0, 0, 1)))]"
    have l: "3 \<le> length ?pm" by simp
    have c: "?pm = (''A'', ((1, 0, 0), (-1, 0, 0)))
                 # [(''a'', ((0, 1, 0), (-1, 0, 0))), (''B'', ((0, 0, 1), (0, 0, 1)))]" by simp
    have nz: "(1::real) \<noteq> 0" by simp
    obtain v a t where "optimiseAlignment exampleLibrary ?pm exampleAlignStep =
        storeResult (optimise exampleLibrary (map snd ?pm) a (1 / 1) t) exampleAlignStep"
      using optimiseAlignment_enough [OF l c seed nz, of exampleLibrary exampleAlignStep]
      by blast
    then have "doAutoAlign exampleLibrary exampleInputs 0 exampleAlignStep =
        Return () (exampleAlignStep\<lparr>rotation := listOf a, scale := PNum 1,
                                       translation := listOf t\<rparr>)"
      by (cases t) (simp add: storeResult_def exampleLibrary_def doAutoAlign_def b0)
    then show ?thesis by blast
  qed
  have d1: "doAutoAlign exampleLibrary exampleInputs 1 exampleAlignStep
       = Raise AssertionError exampleAlignStep"
    by (simp add: doAutoAlign_def b1 optimiseAlignment_too_few)
  show ?thesis using b0 b1 d0 d1 by simp
qed

section \<open>Properties of penalty assignment\<close>

lemma scanGroups_append:
  "scanGroups e (xs @ ys) st = scanGroups e ys (scanGroups e xs st)"
proof (induction xs arbitrary: st)
  case Nil
  then show ?case by simp
next
  case (Cons x xs)
  obtain sp snz cp cnz where st: "st = (sp, snz, cp, cnz)" by (cases st) auto
  show ?case unfolding st using Cons.IH by (simp add: Let_def split: prod.splits)
qed

lemma scanGroups_strain:
  assumes "\<forall>entry \<in> set groups. groupStrainPenalty entry \<noteq> []"
  shows "fst (scanGroups e groups (sp, snz, cp, cnz)) =
           (if notPenalty sp then
              (case strainGroupFor groups e of None \<Rightarrow> sp
               | Some g \<Rightarrow> Some (groupStrainPenalty g))
            else sp)"
  using assms
proof (induction groups arbitrary: sp snz cp cnz)
  case Nil
  then show ?case by (simp add: strainGroupFor_def)
next
  case (Cons x xs)
  have ne: "\<not> notPenalty (Some (groupStrainPenalty x))"
    using Cons.prems by (simp add: notPenalty_def)
  have rest: "\<forall>entry \<in> set xs. groupStrainPenalty entry \<noteq> []"
    using Cons.prems by simp
  show ?case
    using Cons.IH [OF rest] ne
    by (simp add: Let_def strainGroupFor_def split: prod.splits)
qed

lemma scanGroups_curvature:
  assumes "\<forall>entry \<in> set groups. groupCurvaturePenalty entry \<noteq> []"
  shows "fst (snd (snd (scanGroups e groups (sp, snz, cp, cnz)))) =
           (if notPenalty cp then
              (case curvatureGroupFor groups e of None \<Rightarrow> cp
               | Some g \<Rightarrow> Some (groupCurvaturePenalty g))
            else cp)"
  using assms
proof (induction groups arbitrary: sp snz cp cnz)
  case Nil
  then show ?case by (simp add: curvatureGroupFor_def)
next
  case (Cons x xs)
  have ne: "\<not> notPenalty (Some (groupCurvaturePenalty x))"
    using Cons.prems by (simp add: notPenalty_def)
  have rest: "\<forall>entry \<in> set xs. groupCurvaturePenalty entry \<noteq> []"
    using Cons.prems by simp
  show ?case
    using Cons.IH [OF rest] ne
    by (simp add: Let_def curvatureGroupFor_def split: prod.splits)
qed

text \<open>The flag that travels with a tensor says whether the tensor has a positive component.\<close>

definition flagAgrees :: "real list option \<Rightarrow> bool \<Rightarrow> bool" where
  "flagAgrees penalty nonZero =
     (case penalty of None \<Rightarrow> \<not> nonZero | Some p \<Rightarrow> nonZero = anyPositive p)"

lemma scanGroups_flags:
  assumes "\<forall>entry \<in> set groups.
      groupStrainPenaltyNonZero entry = anyPositive (groupStrainPenalty entry)
      \<and> groupCurvaturePenaltyNonZero entry = anyPositive (groupCurvaturePenalty entry)"
    and "flagAgrees sp snz" and "flagAgrees cp cnz"
    and "scanGroups e groups (sp, snz, cp, cnz) = (sp', snz', cp', cnz')"
  shows "flagAgrees sp' snz' \<and> flagAgrees cp' cnz'"
  using assms
proof (induction groups arbitrary: sp snz cp cnz)
  case Nil
  then show ?case by simp
next
  case (Cons x xs)
  have rest: "\<forall>entry \<in> set xs.
      groupStrainPenaltyNonZero entry = anyPositive (groupStrainPenalty entry)
      \<and> groupCurvaturePenaltyNonZero entry = anyPositive (groupCurvaturePenalty entry)"
    using Cons.prems(1) by simp
  have x: "flagAgrees (Some (groupStrainPenalty x)) (groupStrainPenaltyNonZero x)"
      "flagAgrees (Some (groupCurvaturePenalty x)) (groupCurvaturePenaltyNonZero x)"
    using Cons.prems(1) by (simp_all add: flagAgrees_def)
  show ?case
    using Cons.prems(2-4) x Cons.IH [OF rest]
    by (auto simp: Let_def split: if_splits)
qed

lemma scanGroups_default:
  assumes "group d = None"
  shows "fst (scanGroups e (xs @ [d]) st) \<noteq> None
       \<and> fst (snd (snd (scanGroups e (xs @ [d]) st))) \<noteq> None"
proof -
  obtain sp snz cp cnz where st': "scanGroups e xs st = (sp, snz, cp, cnz)"
    by (cases "scanGroups e xs st") auto
  show ?thesis
    using assms
    by (auto simp: scanGroups_append st' containsElement_def notPenalty_def Let_def)
qed

lemma penaltyGroups_append:
  "penaltyGroups fit sc cc (xs @ ys) = penaltyGroups fit sc cc xs @ penaltyGroups fit sc cc ys"
  by (induction xs rule: penaltyGroups.induct[of _ fit sc cc])
     (auto split: option.splits)

text \<open>What the element loop leaves behind, element by element.\<close>

lemma assignElements_result:
  assumes "\<forall>e \<in> set es. fst (scanGroups e groups (None, False, None, False)) \<noteq> None
            \<and> fst (snd (snd (scanGroups e groups (None, False, None, False)))) \<noteq> None"
  shows "\<exists>f'. assignElements groups es f = Return () f'
    \<and> (\<forall>e. strainPenaltyField f' e =
          (if e \<in> set es then fst (scanGroups e groups (None, False, None, False))
           else strainPenaltyField f e))
    \<and> (\<forall>e. curvaturePenaltyField f' e =
          (if e \<in> set es then fst (snd (snd (scanGroups e groups (None, False, None, False))))
           else curvaturePenaltyField f e))
    \<and> strainActiveMeshGroup f' = strainActiveMeshGroup f
          \<union> {e \<in> set es. fst (snd (scanGroups e groups (None, False, None, False)))}
    \<and> curvatureActiveMeshGroup f' = curvatureActiveMeshGroup f
          \<union> {e \<in> set es. snd (snd (snd (scanGroups e groups (None, False, None, False))))}
    \<and> deformActiveMeshGroup f' = deformActiveMeshGroup f
          \<union> {e \<in> set es. fst (snd (scanGroups e groups (None, False, None, False)))
                \<or> snd (snd (snd (scanGroups e groups (None, False, None, False))))}"
  using assms
proof (induction es arbitrary: f)
  case Nil
  then show ?case by simp
next
  case (Cons x xs)
  obtain sp snz cp cnz where sc: "scanGroups x groups (None, False, None, False) = (sp, snz, cp, cnz)"
    by (cases "scanGroups x groups (None, False, None, False)") auto
  obtain s c where sp: "sp = Some s" and cp: "cp = Some c"
    using Cons.prems sc by auto
  define f1 where "f1 = f\<lparr>
      strainPenaltyField := (strainPenaltyField f)(x \<mapsto> s),
      curvaturePenaltyField := (curvaturePenaltyField f)(x \<mapsto> c),
      strainActiveMeshGroup :=
        (if snz then insert x (strainActiveMeshGroup f) else strainActiveMeshGroup f),
      curvatureActiveMeshGroup :=
        (if cnz then insert x (curvatureActiveMeshGroup f) else curvatureActiveMeshGroup f),
      deformActiveMeshGroup :=
        (if snz \<or> cnz then insert x (deformActiveMeshGroup f) else deformActiveMeshGroup f)\<rparr>"
  have step: "assignElements groups (x # xs) f = assignElements groups xs f1"
    by (simp add: sc sp cp f1_def)
  have rest: "\<forall>e \<in> set xs. fst (scanGroups e groups (None, False, None, False)) \<noteq> None
            \<and> fst (snd (snd (scanGroups e groups (None, False, None, False)))) \<noteq> None"
    using Cons.prems by simp
  obtain f' where f': "assignElements groups xs f1 = Return () f'"
    and sf: "\<And>e. strainPenaltyField f' e =
          (if e \<in> set xs then fst (scanGroups e groups (None, False, None, False))
           else strainPenaltyField f1 e)"
    and cf: "\<And>e. curvaturePenaltyField f' e =
          (if e \<in> set xs then fst (snd (snd (scanGroups e groups (None, False, None, False))))
           else curvaturePenaltyField f1 e)"
    and sa: "strainActiveMeshGroup f' = strainActiveMeshGroup f1
          \<union> {e \<in> set xs. fst (snd (scanGroups e groups (None, False, None, False)))}"
    and ca: "curvatureActiveMeshGroup f' = curvatureActiveMeshGroup f1
          \<union> {e \<in> set xs. snd (snd (snd (scanGroups e groups (None, False, None, False))))}"
    and da: "deformActiveMeshGroup f' = deformActiveMeshGroup f1
          \<union> {e \<in> set xs. fst (snd (scanGroups e groups (None, False, None, False)))
                \<or> snd (snd (snd (scanGroups e groups (None, False, None, False))))}"
    using Cons.IH [OF rest, of f1] by blast
  have f1s: "strainPenaltyField f1 = (strainPenaltyField f)(x \<mapsto> s)"
    and f1c: "curvaturePenaltyField f1 = (curvaturePenaltyField f)(x \<mapsto> c)"
    and f1sa: "strainActiveMeshGroup f1 =
        (if snz then insert x (strainActiveMeshGroup f) else strainActiveMeshGroup f)"
    and f1ca: "curvatureActiveMeshGroup f1 =
        (if cnz then insert x (curvatureActiveMeshGroup f) else curvatureActiveMeshGroup f)"
    and f1da: "deformActiveMeshGroup f1 =
        (if snz \<or> cnz then insert x (deformActiveMeshGroup f) else deformActiveMeshGroup f)"
    by (simp_all add: f1_def)
  show ?case
  proof (intro exI [of _ f'] conjI allI)
    show "assignElements groups (x # xs) f = Return () f'"
      using step f' by simp
  next
    fix e
    show "strainPenaltyField f' e =
          (if e \<in> set (x # xs) then fst (scanGroups e groups (None, False, None, False))
           else strainPenaltyField f e)"
      using sf [of e] f1s sc sp by auto
  next
    fix e
    show "curvaturePenaltyField f' e =
          (if e \<in> set (x # xs) then fst (snd (snd (scanGroups e groups (None, False, None, False))))
           else curvaturePenaltyField f e)"
      using cf [of e] f1c sc cp by auto
  next
    show "strainActiveMeshGroup f' = strainActiveMeshGroup f
          \<union> {e \<in> set (x # xs). fst (snd (scanGroups e groups (None, False, None, False)))}"
      using sa f1sa sc by auto
  next
    show "curvatureActiveMeshGroup f' = curvatureActiveMeshGroup f
          \<union> {e \<in> set (x # xs). snd (snd (snd (scanGroups e groups (None, False, None, False))))}"
      using ca f1ca sc by auto
  next
    show "deformActiveMeshGroup f' = deformActiveMeshGroup f
          \<union> {e \<in> set (x # xs). fst (snd (scanGroups e groups (None, False, None, False)))
                \<or> snd (snd (snd (scanGroups e groups (None, False, None, False))))}"
      using da f1da sc by auto
  qed
qed

lemma penaltyGroups_named:
  "penaltyGroups fit sc cc (map Some gl) =
     map (\<lambda>g. penaltyGroupOf fit sc cc (Some g)) (filter meshGroupNonEmpty gl)"
  by (induction gl) (auto simp: meshGroupNonEmpty_def split: option.splits)

lemma penaltyGroupList_eq:
  "penaltyGroupList fit m gl =
     map (\<lambda>g. penaltyGroupOf fit (strainComponents m) (curvatureComponents m) (Some g))
       (filter meshGroupNonEmpty gl)
     @ [penaltyGroupOf fit (strainComponents m) (curvatureComponents m) None]"
  by (simp add: penaltyGroupList_def penaltyGroups_append penaltyGroups_named)

lemma penaltyGroupOf_simps:
  "group (penaltyGroupOf fit sc cc g) = g"
  "groupStrainPenalty (penaltyGroupOf fit sc cc g)
     = fst (getGroupStrainPenalty fit (map_option groupName g) sc)"
  "groupCurvaturePenalty (penaltyGroupOf fit sc cc g)
     = fst (getGroupCurvaturePenalty fit (map_option groupName g) cc)"
  "groupStrainPenaltyNonZero (penaltyGroupOf fit sc cc g)
     = anyPositive (groupStrainPenalty (penaltyGroupOf fit sc cc g))"
  "groupCurvaturePenaltyNonZero (penaltyGroupOf fit sc cc g)
     = anyPositive (groupCurvaturePenalty (penaltyGroupOf fit sc cc g))"
  by (simp_all add: penaltyGroupOf_def Let_def split: prod.splits)

lemma penaltyGroupList_flags:
  "\<forall>entry \<in> set (penaltyGroupList fit m gl).
      groupStrainPenaltyNonZero entry = anyPositive (groupStrainPenalty entry)
      \<and> groupCurvaturePenaltyNonZero entry = anyPositive (groupCurvaturePenalty entry)"
  by (auto simp: penaltyGroupList_eq penaltyGroupOf_simps)

lemma penaltyGroupList_resolves:
  "fst (scanGroups e (penaltyGroupList fit m gl) st) \<noteq> None
   \<and> fst (snd (snd (scanGroups e (penaltyGroupList fit m gl) st))) \<noteq> None"
  unfolding penaltyGroupList_eq
  by (rule scanGroups_default) (simp add: penaltyGroupOf_simps)

lemma assignDeformationPenalties_result:
  "\<exists>f'. assignDeformationPenalties fit gl (Some m) (Some f) =
      Return (deformActiveMeshGroup f', strainActiveMeshGroup f', curvatureActiveMeshGroup f')
        (Some f')
    \<and> (\<forall>e. strainPenaltyField f' e =
          (if e \<in> set (elements m)
           then fst (scanGroups e (penaltyGroupList fit m gl) (None, False, None, False))
           else strainPenaltyField f e))
    \<and> (\<forall>e. curvaturePenaltyField f' e =
          (if e \<in> set (elements m)
           then fst (snd (snd (scanGroups e (penaltyGroupList fit m gl) (None, False, None, False))))
           else curvaturePenaltyField f e))
    \<and> strainActiveMeshGroup f' =
          {e \<in> set (elements m).
             fst (snd (scanGroups e (penaltyGroupList fit m gl) (None, False, None, False)))}
    \<and> curvatureActiveMeshGroup f' =
          {e \<in> set (elements m).
             snd (snd (snd (scanGroups e (penaltyGroupList fit m gl) (None, False, None, False))))}
    \<and> deformActiveMeshGroup f' = strainActiveMeshGroup f' \<union> curvatureActiveMeshGroup f'"
proof -
  define f0 where "f0 = f\<lparr>deformActiveMeshGroup := {}, strainActiveMeshGroup := {},
                             curvatureActiveMeshGroup := {}\<rparr>"
  have res: "\<forall>e \<in> set (elements m).
      fst (scanGroups e (penaltyGroupList fit m gl) (None, False, None, False)) \<noteq> None
      \<and> fst (snd (snd (scanGroups e (penaltyGroupList fit m gl) (None, False, None, False)))) \<noteq> None"
    using penaltyGroupList_resolves by blast
  obtain f' where f': "assignElements (penaltyGroupList fit m gl) (elements m) f0 = Return () f'"
    and sf: "\<forall>e. strainPenaltyField f' e =
          (if e \<in> set (elements m)
           then fst (scanGroups e (penaltyGroupList fit m gl) (None, False, None, False))
           else strainPenaltyField f0 e)"
    and cf: "\<forall>e. curvaturePenaltyField f' e =
          (if e \<in> set (elements m)
           then fst (snd (snd (scanGroups e (penaltyGroupList fit m gl) (None, False, None, False))))
           else curvaturePenaltyField f0 e)"
    and sa: "strainActiveMeshGroup f' = strainActiveMeshGroup f0
          \<union> {e \<in> set (elements m).
               fst (snd (scanGroups e (penaltyGroupList fit m gl) (None, False, None, False)))}"
    and ca: "curvatureActiveMeshGroup f' = curvatureActiveMeshGroup f0
          \<union> {e \<in> set (elements m).
               snd (snd (snd (scanGroups e (penaltyGroupList fit m gl) (None, False, None, False))))}"
    and da: "deformActiveMeshGroup f' = deformActiveMeshGroup f0
          \<union> {e \<in> set (elements m).
               fst (snd (scanGroups e (penaltyGroupList fit m gl) (None, False, None, False)))
               \<or> snd (snd (snd (scanGroups e (penaltyGroupList fit m gl) (None, False, None, False))))}"
    using assignElements_result [OF res, of f0] by blast
  have f0s: "strainPenaltyField f0 = strainPenaltyField f"
      "curvaturePenaltyField f0 = curvaturePenaltyField f"
      "strainActiveMeshGroup f0 = {}" "curvatureActiveMeshGroup f0 = {}"
      "deformActiveMeshGroup f0 = {}"
    by (simp_all add: f0_def)
  have call: "assignDeformationPenalties fit gl (Some m) (Some f) =
      Return (deformActiveMeshGroup f', strainActiveMeshGroup f', curvatureActiveMeshGroup f')
        (Some f')"
    using f' by (simp add: assignDeformationPenalties_def Let_def f0_def)
  show ?thesis
  proof (intro exI [of _ f'] conjI)
    show "assignDeformationPenalties fit gl (Some m) (Some f) =
      Return (deformActiveMeshGroup f', strainActiveMeshGroup f', curvatureActiveMeshGroup f')
        (Some f')" by (rule call)
    show "\<forall>e. strainPenaltyField f' e =
          (if e \<in> set (elements m)
           then fst (scanGroups e (penaltyGroupList fit m gl) (None, False, None, False))
           else strainPenaltyField f e)" using sf f0s by simp
    show "\<forall>e. curvaturePenaltyField f' e =
          (if e \<in> set (elements m)
           then fst (snd (snd (scanGroups e (penaltyGroupList fit m gl) (None, False, None, False))))
           else curvaturePenaltyField f e)" using cf f0s by simp
    show "strainActiveMeshGroup f' =
          {e \<in> set (elements m).
             fst (snd (scanGroups e (penaltyGroupList fit m gl) (None, False, None, False)))}"
      using sa f0s by simp
    show "curvatureActiveMeshGroup f' =
          {e \<in> set (elements m).
             snd (snd (snd (scanGroups e (penaltyGroupList fit m gl) (None, False, None, False))))}"
      using ca f0s by simp
    show "deformActiveMeshGroup f' = strainActiveMeshGroup f' \<union> curvatureActiveMeshGroup f'"
      using sa ca da f0s by auto
  qed
qed

lemma find_append_last:
  "find P (xs @ [d]) = (case find P xs of Some x \<Rightarrow> Some x | None \<Rightarrow> if P d then Some d else None)"
  by (induction xs) auto

text \<open>
  Claim C4. After \<^verbatim>\<open>assignDeformationPenalties\<close>, provided every strain and curvature
  tensor that the step hands out has at least one component, the strain tensor of every element
  of the highest dimension mesh is that of the first entry of the priority list that contains
  the element and whose strain tensor is set or inheritable, and its curvature tensor is that of
  the first entry that contains it and whose curvature tensor is set or inheritable, each
  found on its own. The priority list holds the named groups with a non-empty mesh group, in the
  order of the group list, and then the default group, which contains every element and always
  counts as set; so an element that no named group with a set strain tensor contains receives
  the default strain tensor, and likewise for curvature.
\<close>

theorem assignDeformationPenalties_first_group:
  assumes "\<forall>name. fst (getGroupStrainPenalty fit name (strainComponents m)) \<noteq> []"
    and "\<forall>name. fst (getGroupCurvaturePenalty fit name (curvatureComponents m)) \<noteq> []"
  shows "\<exists>f'. assignDeformationPenalties fit gl (Some m) (Some f) =
      Return (deformActiveMeshGroup f', strainActiveMeshGroup f', curvatureActiveMeshGroup f')
        (Some f')
    \<and> penaltyGroupList fit m gl =
        map (\<lambda>g. penaltyGroupOf fit (strainComponents m) (curvatureComponents m) (Some g))
          (filter meshGroupNonEmpty gl)
        @ [penaltyGroupOf fit (strainComponents m) (curvatureComponents m) None]
    \<and> (\<forall>e \<in> set (elements m).
          (\<exists>gs. strainGroupFor (penaltyGroupList fit m gl) e = Some gs
                \<and> strainPenaltyField f' e = Some (groupStrainPenalty gs))
        \<and> (\<exists>gc. curvatureGroupFor (penaltyGroupList fit m gl) e = Some gc
                \<and> curvaturePenaltyField f' e = Some (groupCurvaturePenalty gc))
        \<and> ((\<forall>g \<in> set gl. \<forall>meshGroup. elementGroup g = Some meshGroup \<longrightarrow> e \<in> set meshGroup \<longrightarrow>
               \<not> groupStrainSet (penaltyGroupOf fit (strainComponents m) (curvatureComponents m)
                    (Some g)))
             \<longrightarrow> strainPenaltyField f' e
                   = Some (fst (getGroupStrainPenalty fit None (strainComponents m))))
        \<and> ((\<forall>g \<in> set gl. \<forall>meshGroup. elementGroup g = Some meshGroup \<longrightarrow> e \<in> set meshGroup \<longrightarrow>
               \<not> groupCurvatureSet (penaltyGroupOf fit (strainComponents m) (curvatureComponents m)
                    (Some g)))
             \<longrightarrow> curvaturePenaltyField f' e
                   = Some (fst (getGroupCurvaturePenalty fit None (curvatureComponents m)))))"
proof -
  let ?sc = "strainComponents m" and ?cc = "curvatureComponents m"
  let ?groups = "penaltyGroupList fit m gl"
  let ?named = "map (\<lambda>g. penaltyGroupOf fit ?sc ?cc (Some g)) (filter meshGroupNonEmpty gl)"
  let ?default = "penaltyGroupOf fit ?sc ?cc None"
  have eq: "?groups = ?named @ [?default]" by (rule penaltyGroupList_eq)
  have sne: "\<forall>entry \<in> set ?groups. groupStrainPenalty entry \<noteq> []"
    using assms(1) by (auto simp: eq penaltyGroupOf_simps)
  have cne: "\<forall>entry \<in> set ?groups. groupCurvaturePenalty entry \<noteq> []"
    using assms(2) by (auto simp: eq penaltyGroupOf_simps)
  obtain f' where call: "assignDeformationPenalties fit gl (Some m) (Some f) =
      Return (deformActiveMeshGroup f', strainActiveMeshGroup f', curvatureActiveMeshGroup f')
        (Some f')"
    and sf: "\<forall>e. strainPenaltyField f' e =
          (if e \<in> set (elements m)
           then fst (scanGroups e ?groups (None, False, None, False))
           else strainPenaltyField f e)"
    and cf: "\<forall>e. curvaturePenaltyField f' e =
          (if e \<in> set (elements m)
           then fst (snd (snd (scanGroups e ?groups (None, False, None, False))))
           else curvaturePenaltyField f e)"
    using assignDeformationPenalties_result [of fit gl m f] by blast
  have dflt: "containsElement ?default e" "group ?default = None" for e
    by (simp_all add: containsElement_def penaltyGroupOf_simps)
  have per_element:
    "(\<exists>gs. strainGroupFor ?groups e = Some gs
                \<and> strainPenaltyField f' e = Some (groupStrainPenalty gs))
        \<and> (\<exists>gc. curvatureGroupFor ?groups e = Some gc
                \<and> curvaturePenaltyField f' e = Some (groupCurvaturePenalty gc))
        \<and> ((\<forall>g \<in> set gl. \<forall>meshGroup. elementGroup g = Some meshGroup \<longrightarrow> e \<in> set meshGroup \<longrightarrow>
               \<not> groupStrainSet (penaltyGroupOf fit ?sc ?cc (Some g)))
             \<longrightarrow> strainPenaltyField f' e = Some (fst (getGroupStrainPenalty fit None ?sc)))
        \<and> ((\<forall>g \<in> set gl. \<forall>meshGroup. elementGroup g = Some meshGroup \<longrightarrow> e \<in> set meshGroup \<longrightarrow>
               \<not> groupCurvatureSet (penaltyGroupOf fit ?sc ?cc (Some g)))
             \<longrightarrow> curvaturePenaltyField f' e = Some (fst (getGroupCurvaturePenalty fit None ?cc)))"
    if e: "e \<in> set (elements m)" for e
  proof -
    have s1: "strainPenaltyField f' e =
        (case strainGroupFor ?groups e of None \<Rightarrow> None | Some g \<Rightarrow> Some (groupStrainPenalty g))"
      using sf e scanGroups_strain [OF sne, of e None False None False]
      by (simp add: notPenalty_def)
    have c1: "curvaturePenaltyField f' e =
        (case curvatureGroupFor ?groups e of None \<Rightarrow> None
         | Some g \<Rightarrow> Some (groupCurvaturePenalty g))"
      using cf e scanGroups_curvature [OF cne, of e None False None False]
      by (simp add: notPenalty_def)
    have sfind: "strainGroupFor ?groups e =
        (case find (\<lambda>entry. containsElement entry e \<and> (groupStrainSet entry \<or> group entry = None))
                ?named of Some x \<Rightarrow> Some x | None \<Rightarrow> Some ?default)"
      unfolding strainGroupFor_def eq find_append_last using dflt by simp
    have cfind: "curvatureGroupFor ?groups e =
        (case find (\<lambda>entry. containsElement entry e \<and> (groupCurvatureSet entry \<or> group entry = None))
                ?named of Some x \<Rightarrow> Some x | None \<Rightarrow> Some ?default)"
      unfolding curvatureGroupFor_def eq find_append_last using dflt by simp
    have a: "\<exists>gs. strainGroupFor ?groups e = Some gs
                \<and> strainPenaltyField f' e = Some (groupStrainPenalty gs)"
      using s1 sfind by (auto split: option.splits)
    have b: "\<exists>gc. curvatureGroupFor ?groups e = Some gc
                \<and> curvaturePenaltyField f' e = Some (groupCurvaturePenalty gc)"
      using c1 cfind by (auto split: option.splits)
    have c: "strainPenaltyField f' e = Some (fst (getGroupStrainPenalty fit None ?sc))"
      if none: "\<forall>g \<in> set gl. \<forall>meshGroup. elementGroup g = Some meshGroup \<longrightarrow> e \<in> set meshGroup \<longrightarrow>
               \<not> groupStrainSet (penaltyGroupOf fit ?sc ?cc (Some g))"
    proof -
      have "find (\<lambda>entry. containsElement entry e \<and> (groupStrainSet entry \<or> group entry = None))
                ?named = None"
        using none
        by (auto simp: find_None_iff containsElement_def penaltyGroupOf_simps
            split: option.splits)
      then show ?thesis using s1 sfind by (simp add: penaltyGroupOf_simps)
    qed
    have d: "curvaturePenaltyField f' e = Some (fst (getGroupCurvaturePenalty fit None ?cc))"
      if none: "\<forall>g \<in> set gl. \<forall>meshGroup. elementGroup g = Some meshGroup \<longrightarrow> e \<in> set meshGroup \<longrightarrow>
               \<not> groupCurvatureSet (penaltyGroupOf fit ?sc ?cc (Some g))"
    proof -
      have "find (\<lambda>entry. containsElement entry e \<and> (groupCurvatureSet entry \<or> group entry = None))
                ?named = None"
        using none
        by (auto simp: find_None_iff containsElement_def penaltyGroupOf_simps
            split: option.splits)
      then show ?thesis using c1 cfind by (simp add: penaltyGroupOf_simps)
    qed
    show ?thesis using a b c d by blast
  qed
  show ?thesis
    using call eq per_element by (intro exI [of _ f']) blast
qed

theorem assignDeformationPenalties_first_group_witness:
  "(\<forall>name. fst (getGroupStrainPenalty exampleFit name (strainComponents exampleMesh)) \<noteq> [])
   \<and> (\<forall>name. fst (getGroupCurvaturePenalty exampleFit name (curvatureComponents exampleMesh)) \<noteq> [])
   \<and> (case assignDeformationPenalties exampleFit exampleGroups (Some exampleMesh)
             (Some examplePenalties) of
        Return r (Some f') \<Rightarrow>
          map (strainPenaltyField f') [1, 2, 3, 4, 5] =
            [Some [1, 1, 1, 1], Some [1, 1, 1, 1], Some [0, 0, 0, 0], Some [2, 2, 2, 2],
             Some [0, 0, 0, 0]]
          \<and> map (curvaturePenaltyField f') [1, 2, 3, 4, 5] =
            [Some [0, 0, 0, 0, 0, 0, 0, 0], Some [5, 5, 5, 5, 5, 5, 5, 5],
             Some [0, 0, 0, 0, 0, 0, 0, 0], Some [5, 5, 5, 5, 5, 5, 5, 5],
             Some [0, 0, 0, 0, 0, 0, 0, 0]]
      | _ \<Rightarrow> False)
   \<and> map (\<lambda>e. map_option (\<lambda>entry. map_option groupName (group entry))
               (strainGroupFor (penaltyGroupList exampleFit exampleMesh exampleGroups) e))
        [1, 2, 3, 4, 5]
      = [Some (Some ''G1''), Some (Some ''G1''), Some None, Some (Some ''G2''), Some None]
   \<and> map (\<lambda>e. map_option (\<lambda>entry. map_option groupName (group entry))
               (curvatureGroupFor (penaltyGroupList exampleFit exampleMesh exampleGroups) e))
        [1, 2, 3, 4, 5]
      = [Some None, Some (Some ''G2''), Some None, Some (Some ''G2''), Some None]"
proof -
  have h1: "\<forall>name. fst (getGroupStrainPenalty exampleFit name (strainComponents exampleMesh)) \<noteq> []"
    by (simp add: exampleFit_def exampleMesh_def strainComponents_def)
  have h2: "\<forall>name. fst (getGroupCurvaturePenalty exampleFit name (curvatureComponents exampleMesh))
      \<noteq> []"
    by (simp add: exampleFit_def exampleMesh_def curvatureComponents_def)
  have ev: "(case assignDeformationPenalties exampleFit exampleGroups (Some exampleMesh)
             (Some examplePenalties) of
        Return r (Some f') \<Rightarrow>
          map (strainPenaltyField f') [1, 2, 3, 4, 5] =
            [Some [1, 1, 1, 1], Some [1, 1, 1, 1], Some [0, 0, 0, 0], Some [2, 2, 2, 2],
             Some [0, 0, 0, 0]]
          \<and> map (curvaturePenaltyField f') [1, 2, 3, 4, 5] =
            [Some [0, 0, 0, 0, 0, 0, 0, 0], Some [5, 5, 5, 5, 5, 5, 5, 5],
             Some [0, 0, 0, 0, 0, 0, 0, 0], Some [5, 5, 5, 5, 5, 5, 5, 5],
             Some [0, 0, 0, 0, 0, 0, 0, 0]]
      | _ \<Rightarrow> False)"
    by code_simp
  have gs: "map (\<lambda>e. map_option (\<lambda>entry. map_option groupName (group entry))
               (strainGroupFor (penaltyGroupList exampleFit exampleMesh exampleGroups) e))
        [1, 2, 3, 4, 5]
      = [Some (Some ''G1''), Some (Some ''G1''), Some None, Some (Some ''G2''), Some None]"
    by code_simp
  have gc: "map (\<lambda>e. map_option (\<lambda>entry. map_option groupName (group entry))
               (curvatureGroupFor (penaltyGroupList exampleFit exampleMesh exampleGroups) e))
        [1, 2, 3, 4, 5]
      = [Some None, Some (Some ''G2''), Some None, Some (Some ''G2''), Some None]"
    by code_simp
  show ?thesis
    using assignDeformationPenalties_first_group [OF h1 h2, of exampleGroups examplePenalties]
      h1 h2 ev gs gc
    by - (intro conjI; assumption)
qed

text \<open>
  Claim C5. Every call of \<^verbatim>\<open>assignDeformationPenalties\<close> on a mesh with defined penalty
  fields returns, and whatever the three active sets held before, afterwards an element is in
  the strain-active set exactly when it is an element of the mesh whose assigned strain tensor
  has a positive component, in the curvature-active set exactly when it is an element of the
  mesh whose assigned curvature tensor has a positive component, and in the deform-active set
  exactly when it is in one of the other two.
\<close>

theorem assignDeformationPenalties_active_sets:
  "\<exists>f'. assignDeformationPenalties fit gl (Some m) (Some f) =
      Return (deformActiveMeshGroup f', strainActiveMeshGroup f', curvatureActiveMeshGroup f')
        (Some f')
    \<and> strainActiveMeshGroup f' =
        {e \<in> set (elements m). \<exists>p. strainPenaltyField f' e = Some p \<and> anyPositive p}
    \<and> curvatureActiveMeshGroup f' =
        {e \<in> set (elements m). \<exists>p. curvaturePenaltyField f' e = Some p \<and> anyPositive p}
    \<and> deformActiveMeshGroup f' = strainActiveMeshGroup f' \<union> curvatureActiveMeshGroup f'"
proof -
  let ?groups = "penaltyGroupList fit m gl"
  obtain f' where call: "assignDeformationPenalties fit gl (Some m) (Some f) =
      Return (deformActiveMeshGroup f', strainActiveMeshGroup f', curvatureActiveMeshGroup f')
        (Some f')"
    and sf: "\<forall>e. strainPenaltyField f' e =
          (if e \<in> set (elements m)
           then fst (scanGroups e ?groups (None, False, None, False))
           else strainPenaltyField f e)"
    and cf: "\<forall>e. curvaturePenaltyField f' e =
          (if e \<in> set (elements m)
           then fst (snd (snd (scanGroups e ?groups (None, False, None, False))))
           else curvaturePenaltyField f e)"
    and sa: "strainActiveMeshGroup f' =
          {e \<in> set (elements m). fst (snd (scanGroups e ?groups (None, False, None, False)))}"
    and ca: "curvatureActiveMeshGroup f' =
          {e \<in> set (elements m).
             snd (snd (snd (scanGroups e ?groups (None, False, None, False))))}"
    and da: "deformActiveMeshGroup f' = strainActiveMeshGroup f' \<union> curvatureActiveMeshGroup f'"
    using assignDeformationPenalties_result [of fit gl m f] by blast
  have flags: "fst (snd (scanGroups e ?groups (None, False, None, False)))
        = (\<exists>p. strainPenaltyField f' e = Some p \<and> anyPositive p)
      \<and> snd (snd (snd (scanGroups e ?groups (None, False, None, False))))
        = (\<exists>p. curvaturePenaltyField f' e = Some p \<and> anyPositive p)"
    if e: "e \<in> set (elements m)" for e
  proof -
    obtain sp snz cp cnz where sc:
      "scanGroups e ?groups (None, False, None, False) = (sp, snz, cp, cnz)"
      by (cases "scanGroups e ?groups (None, False, None, False)") auto
    have "flagAgrees sp snz \<and> flagAgrees cp cnz"
      by (rule scanGroups_flags [OF penaltyGroupList_flags _ _ sc])
         (simp_all add: flagAgrees_def)
    moreover have "sp \<noteq> None" "cp \<noteq> None"
      using penaltyGroupList_resolves [of e fit m gl "(None, False, None, False)"] sc by auto
    ultimately show ?thesis
      using sf cf e sc by (auto simp: flagAgrees_def)
  qed
  have s: "strainActiveMeshGroup f' =
        {e \<in> set (elements m). \<exists>p. strainPenaltyField f' e = Some p \<and> anyPositive p}"
    unfolding sa using flags by blast
  have c: "curvatureActiveMeshGroup f' =
        {e \<in> set (elements m). \<exists>p. curvaturePenaltyField f' e = Some p \<and> anyPositive p}"
    unfolding ca using flags by blast
  show ?thesis
    using call s c da by (intro exI [of _ f']) blast
qed

theorem assignDeformationPenalties_active_sets_witness:
  "(case assignDeformationPenalties exampleFit exampleGroups (Some exampleMesh)
             (Some examplePenalties) of
        Return r (Some f') \<Rightarrow>
          r = ({1, 2, 4}, {1, 2, 4}, {2, 4})
          \<and> deformActiveMeshGroup examplePenalties = {9}
          \<and> 9 \<notin> deformActiveMeshGroup f' \<and> 9 \<notin> strainActiveMeshGroup f'
          \<and> 9 \<notin> curvatureActiveMeshGroup f'
      | _ \<Rightarrow> False)"
proof -
  have ev: "(case assignDeformationPenalties exampleFit exampleGroups (Some exampleMesh)
             (Some examplePenalties) of
        Return r (Some f') \<Rightarrow>
          r = ({1, 2, 4}, {1, 2, 4}, {2, 4})
          \<and> deformActiveMeshGroup examplePenalties = {9}
          \<and> 9 \<notin> deformActiveMeshGroup f' \<and> 9 \<notin> strainActiveMeshGroup f'
          \<and> 9 \<notin> curvatureActiveMeshGroup f'
      | _ \<Rightarrow> False)"
    by code_simp
  show ?thesis
    using assignDeformationPenalties_active_sets [of exampleFit exampleGroups exampleMesh
        examplePenalties] ev
    by - assumption
qed

section \<open>Properties of the subsampling scheme\<close>

subsection \<open>Rounding\<close>

lemma round_half_even_error: "\<bar>of_int (round_half_even y) - y\<bar> \<le> 1/2"
proof -
  have a: "of_int \<lfloor>y\<rfloor> \<le> y" "y < of_int \<lfloor>y\<rfloor> + 1" by linarith+
  have b: "of_int \<lfloor>y + 1/2\<rfloor> \<le> y + 1/2" "y + 1/2 < of_int \<lfloor>y + 1/2\<rfloor> + 1" by linarith+
  show ?thesis
  proof (cases "frac y = 1/2")
    case True
    then have "y = of_int \<lfloor>y\<rfloor> + 1/2" by (simp add: frac_def)
    then show ?thesis using True by (simp add: round_half_even_def)
  next
    case False
    have "\<bar>of_int \<lfloor>y + 1/2\<rfloor> - y\<bar> \<le> 1/2" using b by linarith
    then show ?thesis using False by (simp only: round_half_even_def if_False)
  qed
qed

lemma round_half_even_le: "y \<le> of_int n \<Longrightarrow> round_half_even y \<le> n"
  unfolding round_half_even_def frac_def
  by (auto simp: floor_le_iff le_floor_iff)

lemma round_half_even_ge: "of_int m \<le> y \<Longrightarrow> m \<le> round_half_even y"
  unfolding round_half_even_def frac_def
  by (auto simp: floor_le_iff le_floor_iff)

lemma ulp_pos: "0 < ulp x"
  by (simp add: ulp_def)

lemma bit_length_1: "bit_length (Suc 0) = Suc 0"
  by (simp add: bit_length.simps)

lemma ulp_small: "\<bar>x\<bar> < 1 \<Longrightarrow> \<exists>k. ulp x = 1 / 2 ^ (52 + k)"
  by (auto simp: ulp_def)

lemma ulp_unit: "1 \<le> x \<Longrightarrow> x < 2 \<Longrightarrow> ulp x = 1 / 2 ^ 52"
proof -
  assume a: "1 \<le> x" "x < 2"
  then have "\<lfloor>\<bar>x\<bar>\<rfloor> = 1" by (simp add: floor_eq_iff)
  then show ?thesis using a by (simp add: ulp_def bit_length_1)
qed

lemma ulp_le: "0 \<le> x \<Longrightarrow> x < 2 \<Longrightarrow> ulp x \<le> 1 / 2 ^ 52"
proof (cases "x < 1")
  case True
  assume "0 \<le> x"
  then obtain k where "ulp x = 1 / 2 ^ (52 + k)" using ulp_small [of x] True by auto
  moreover have "(1::real) / 2 ^ (52 + k) \<le> 1 / 2 ^ 52"
    by (intro divide_left_mono power_increasing) auto
  ultimately show ?thesis by simp
next
  case False
  assume "x < 2"
  then show ?thesis using ulp_unit [of x] False by simp
qed

lemma fl_eq: "fl x - x = ulp x * (of_int (round_half_even (x / ulp x)) - x / ulp x)"
  using ulp_pos [of x] by (simp add: fl_def algebra_simps)

lemma fl_2: "fl 2 = 2"
  by (simp add: fl_def ulp_def bit_length.simps round_half_even_def frac_def)

lemma fl_1: "fl 1 = 1"
  by (simp add: fl_def ulp_def bit_length.simps round_half_even_def frac_def)

lemma fl_half_ulp: "\<bar>fl x - x\<bar> \<le> ulp x / 2"
proof -
  have "\<bar>fl x - x\<bar> = ulp x * \<bar>of_int (round_half_even (x / ulp x)) - x / ulp x\<bar>"
    using ulp_pos [of x] by (simp add: fl_eq abs_mult)
  also have "\<dots> \<le> ulp x * (1/2)"
    using ulp_pos [of x] round_half_even_error [of "x / ulp x"]
    by (intro mult_left_mono) auto
  finally show ?thesis by simp
qed

text \<open>An operation with a result between 0 and 2 is off by at most \<open>2 ^ -53\<close>.\<close>

lemma fl_error: "0 \<le> x \<Longrightarrow> x \<le> 2 \<Longrightarrow> \<bar>fl x - x\<bar> \<le> 1 / 2 ^ 53"
proof (cases "x = 2")
  case True
  then show ?thesis by (simp add: fl_2)
next
  case False
  assume "0 \<le> x" "x \<le> 2"
  then have "ulp x \<le> 1 / 2 ^ 52" using False by (intro ulp_le) auto
  then show ?thesis using fl_half_ulp [of x] by simp
qed

lemma fl_nonneg: "0 \<le> x \<Longrightarrow> 0 \<le> fl x"
proof -
  assume "0 \<le> x"
  then have "of_int 0 \<le> x / ulp x" using ulp_pos [of x] by simp
  then have "0 \<le> round_half_even (x / ulp x)" by (rule round_half_even_ge)
  then show ?thesis using ulp_pos [of x] by (simp add: fl_def)
qed

lemma fl_le_multiple:
  assumes "x \<le> b" and "b = ulp x * of_int n"
  shows "fl x \<le> b"
proof -
  have "x / ulp x \<le> of_int n" using assms ulp_pos [of x] by (simp add: field_simps)
  then have "round_half_even (x / ulp x) \<le> n" by (rule round_half_even_le)
  then have "ulp x * of_int (round_half_even (x / ulp x)) \<le> ulp x * of_int n"
    using ulp_pos [of x] by (intro mult_left_mono) auto
  then show ?thesis using assms by (simp add: fl_def)
qed

lemma fl_le_1: "0 \<le> x \<Longrightarrow> x \<le> 1 \<Longrightarrow> fl x \<le> 1"
proof (cases "x = 1")
  case True
  then show ?thesis by (simp add: fl_1)
next
  case False
  assume a: "0 \<le> x" "x \<le> 1"
  then obtain k where k: "ulp x = 1 / 2 ^ (52 + k)" using ulp_small [of x] False by auto
  have "(1::real) = ulp x * of_int (2 ^ (52 + k))" by (simp add: k)
  then show ?thesis using a fl_le_multiple [of x 1 "2 ^ (52 + k)"] by simp
qed

lemma fl_le_2: "0 \<le> x \<Longrightarrow> x \<le> 2 \<Longrightarrow> fl x \<le> 2"
proof -
  assume a: "0 \<le> x" "x \<le> 2"
  consider "x = 2" | "x \<le> 1" | "1 \<le> x" "x < 2" using a by linarith
  then show ?thesis
  proof cases
    case 1
    then show ?thesis by (simp add: fl_2)
  next
    case 2
    then show ?thesis using fl_le_1 [of x] a by simp
  next
    case 3
    then have "(2::real) = ulp x * of_int (2 ^ 53)" by (simp add: ulp_unit)
    then show ?thesis using a fl_le_multiple [of x 2 "2 ^ 53"] by simp
  qed
qed

subsection \<open>The counter\<close>

lemma step_error:
  fixes a b d e :: real
  assumes "\<bar>a\<bar> \<le> n / 2 ^ 52" and "\<bar>b\<bar> \<le> 1 / 2 ^ 53" and "\<bar>d\<bar> \<le> 1 / 2 ^ 53"
  shows "\<bar>a - b - d\<bar> \<le> (1 + n) / 2 ^ 52"
proof -
  have "\<bar>a - b - d\<bar> \<le> \<bar>a\<bar> + \<bar>b\<bar> + \<bar>d\<bar>" by linarith
  also have "\<dots> \<le> n / 2 ^ 52 + 1 / 2 ^ 53 + 1 / 2 ^ 53" using assms by linarith
  also have "\<dots> = (1 + n) / 2 ^ 52" by (simp add: field_simps)
  finally show ?thesis .
qed

text \<open>
  After \<open>N\<close> nodes the counter differs from \<open>c + p N\<close> less the number of accepted nodes by
  at most \<open>N / 2 ^ 52\<close>, the two roundings of each step, and it lies between 0 and 1.
\<close>

lemma projectionLoop_count:
  assumes p: "0 < p" "p \<le> 1"
  shows "0 \<le> c \<Longrightarrow> c \<le> 1 \<Longrightarrow>
    \<exists>c'. 0 \<le> c' \<and> c' \<le> 1
      \<and> \<bar>c + p * real (length nodes) - real (length (projectionLoop f p c nodes)) - c'\<bar>
          \<le> real (length nodes) / 2 ^ 52"
proof (induction nodes arbitrary: c)
  case Nil
  then show ?case by (intro exI [of _ c]) simp
next
  case (Cons node nodes)
  define x where "x = fl (c + p)"
  have s: "0 \<le> c + p" "c + p \<le> 2" using Cons.prems p by auto
  have x0: "0 \<le> x" and x2: "x \<le> 2" and xe: "\<bar>x - (c + p)\<bar> \<le> 1 / 2 ^ 53"
    unfolding x_def using s fl_nonneg fl_le_2 fl_error by auto
  show ?case
  proof (cases "x \<ge> 1")
    case True
    define c1 where "c1 = fl (x - 1)"
    have d: "0 \<le> x - 1" "x - 1 \<le> 1" using True x2 by auto
    have c10: "0 \<le> c1" and c11: "c1 \<le> 1" and c1e: "\<bar>c1 - (x - 1)\<bar> \<le> 1 / 2 ^ 53"
      unfolding c1_def using d fl_nonneg fl_le_1 fl_error [of "x - 1"] by auto
    obtain c' where c': "0 \<le> c'" "c' \<le> 1"
      "\<bar>c1 + p * real (length nodes) - real (length (projectionLoop f p c1 nodes)) - c'\<bar>
          \<le> real (length nodes) / 2 ^ 52"
      using Cons.IH [OF c10 c11] by blast
    have l: "projectionLoop f p c (node # nodes) = (node, f node) # projectionLoop f p c1 nodes"
      using True by (simp add: Let_def x_def c1_def)
    have eq: "c + p * real (length (node # nodes))
          - real (length (projectionLoop f p c (node # nodes))) - c'
        = (c1 + p * real (length nodes) - real (length (projectionLoop f p c1 nodes)) - c')
          - (c1 - (x - 1)) - (x - (c + p))"
      unfolding l by (simp add: algebra_simps)
    have "\<bar>c + p * real (length (node # nodes))
          - real (length (projectionLoop f p c (node # nodes))) - c'\<bar>
        \<le> real (length (node # nodes)) / 2 ^ 52"
      unfolding eq using step_error [OF c'(3) c1e xe] by simp
    then show ?thesis using c'(1,2) by blast
  next
    case False
    have c10: "0 \<le> x" and c11: "x \<le> 1" using x0 False by auto
    obtain c' where c': "0 \<le> c'" "c' \<le> 1"
      "\<bar>x + p * real (length nodes) - real (length (projectionLoop f p x nodes)) - c'\<bar>
          \<le> real (length nodes) / 2 ^ 52"
      using Cons.IH [OF c10 c11] by blast
    have l: "projectionLoop f p c (node # nodes) = projectionLoop f p x nodes"
      using False by (simp add: Let_def x_def)
    have z: "\<bar>0::real\<bar> \<le> 1 / 2 ^ 53" by simp
    have eq: "c + p * real (length (node # nodes))
          - real (length (projectionLoop f p c (node # nodes))) - c'
        = (x + p * real (length nodes) - real (length (projectionLoop f p x nodes)) - c')
          - 0 - (x - (c + p))"
      unfolding l by (simp add: algebra_simps)
    have "\<bar>c + p * real (length (node # nodes))
          - real (length (projectionLoop f p c (node # nodes))) - c'\<bar>
        \<le> real (length (node # nodes)) / 2 ^ 52"
      unfolding eq using step_error [OF c'(3) z xe] by simp
    then show ?thesis using c'(1,2) by blast
  qed
qed

lemma projectionLoop_search:
  "map fst (projectionLoop f p c nodes) = map fst (projectionLoop g p c nodes)"
  by (induction nodes arbitrary: c) (simp_all add: Let_def)


lemma bit_length_bound: "0 < n \<Longrightarrow> 2 ^ bit_length n \<le> 2 * n"
proof (induction n rule: bit_length.induct)
  case (1 n)
  show ?case
  proof (cases "n div 2 = 0")
    case True
    then have "n = 1" using 1(2) by presburger
    then show ?thesis by (simp add: bit_length_1)
  next
    case False
    then have "2 ^ bit_length (n div 2) \<le> 2 * (n div 2)" using 1 by simp
    moreover have "bit_length n = Suc (bit_length (n div 2))"
      using 1(2) by (subst bit_length.simps) simp
    ultimately show ?thesis by simp
  qed
qed

lemma ulp_large: "1 \<le> x \<Longrightarrow> ulp x \<le> x / 2 ^ 52"
proof -
  assume a: "1 \<le> x"
  then have n: "0 < nat \<lfloor>x\<rfloor>" by simp
  have "real (2 ^ bit_length (nat \<lfloor>x\<rfloor>)) \<le> real (2 * nat \<lfloor>x\<rfloor>)"
    using bit_length_bound [OF n] by (simp only: of_nat_le_iff)
  also have "\<dots> \<le> 2 * x" using a by simp
  finally have "2 ^ bit_length (nat \<lfloor>x\<rfloor>) \<le> 2 * x" by simp
  then have "2 ^ bit_length (nat \<lfloor>x\<rfloor>) / 2 ^ 53 \<le> 2 * x / 2 ^ 53"
    by (intro divide_right_mono) auto
  then show ?thesis using a by (simp add: ulp_def)
qed

lemma fl_error_product: "0 \<le> x \<Longrightarrow> x \<le> n \<Longrightarrow> \<bar>fl x - x\<bar> \<le> max 1 n / 2 ^ 53"
proof (cases "x < 1")
  case True
  assume "0 \<le> x"
  then have "\<bar>fl x - x\<bar> \<le> 1 / 2 ^ 53" using True fl_error [of x] by simp
  also have "\<dots> \<le> max 1 n / 2 ^ 53" by (intro divide_right_mono) auto
  finally show ?thesis .
next
  case False
  assume "x \<le> n"
  have "\<bar>fl x - x\<bar> \<le> ulp x / 2" by (rule fl_half_ulp)
  also have "\<dots> \<le> (x / 2 ^ 52) / 2" using ulp_large [of x] False by simp
  also have "\<dots> = x / 2 ^ 53" by simp
  also have "\<dots> \<le> max 1 n / 2 ^ 53" using \<open>x \<le> n\<close> by (intro divide_right_mono) auto
  finally show ?thesis .
qed

lemma int_near:
  fixes k m :: int
  assumes "\<bar>real_of_int k - real_of_int m\<bar> < 2"
  shows "\<bar>k - m\<bar> \<le> 1"
proof -
  have "real_of_int \<bar>k - m\<bar> < real_of_int 2" using assms by simp
  then have "\<bar>k - m\<bar> < 2" by (simp only: of_int_less_iff)
  then show ?thesis by simp
qed

text \<open>
  Claim C3. For every ordered list of \<open>N\<close> data points and every proportion \<open>p\<close> with
  \<open>0 < p \<le> 1\<close>, the accumulator scheme in float arithmetic (start at one half, add \<open>p\<close> per
  point, accept when the accumulator reaches one, then subtract one) accepts a number of
  points that differs from \<open>p N\<close> by at most \<open>1/2 + N / 2 ^ 52\<close>. For a list of at most
  \<open>2 ^ 51\<close> points that number is therefore within one of \<open>p N\<close> rounded to an integer:
  with ties to the even neighbour, as Python's \<^verbatim>\<open>round\<close> rounds, of the exact product and
  of the product computed in floats, and with ties upwards. Which points are accepted does not
  depend on what the search returns: it is fixed by \<open>p\<close> and the ordered list, so every run
  over the same ordered input accepts the same points.
\<close>

theorem acceptedNodes_round:
  assumes "0 < p" and "p \<le> 1"
  shows "\<bar>real (length (acceptedNodes findLocation p nodes)) - p * real (length nodes)\<bar>
      \<le> 1/2 + real (length nodes) / 2 ^ 52
    \<and> (length nodes \<le> 2 ^ 51 \<longrightarrow>
         \<bar>int (length (acceptedNodes findLocation p nodes))
            - round_half_even (p * real (length nodes))\<bar> \<le> 1
       \<and> \<bar>int (length (acceptedNodes findLocation p nodes))
            - round_half_even (fl (p * real (length nodes)))\<bar> \<le> 1
       \<and> \<bar>int (length (acceptedNodes findLocation p nodes))
            - round (p * real (length nodes))\<bar> \<le> 1)
    \<and> acceptedNodes findLocation p nodes = acceptedNodes otherLocation p nodes"
proof -
  define N where "N = real (length nodes)"
  define k where "k = length (acceptedNodes findLocation p nodes)"
  define y where "y = p * N"
  obtain c' where c': "0 \<le> c'" "c' \<le> 1"
    "\<bar>1/2 + p * real (length nodes)
        - real (length (projectionLoop findLocation p (1/2) nodes)) - c'\<bar>
      \<le> real (length nodes) / 2 ^ 52"
    using projectionLoop_count [OF assms, of "1/2" nodes findLocation] by auto
  have kk: "real k = real (length (projectionLoop findLocation p (1/2) nodes))"
    by (simp add: k_def acceptedNodes_def)
  have a: "\<bar>real k - y\<bar> \<le> 1/2 + N / 2 ^ 52"
    using c' unfolding kk y_def N_def by linarith
  have y0: "0 \<le> y" and yN: "y \<le> N"
    using assms unfolding y_def N_def by (auto simp: mult_left_le_one_le)
  have b: "\<bar>int k - round_half_even y\<bar> \<le> 1
      \<and> \<bar>int k - round_half_even (fl y)\<bar> \<le> 1 \<and> \<bar>int k - round y\<bar> \<le> 1"
    if small: "length nodes \<le> 2 ^ 51"
  proof -
    have "N \<le> 2 ^ 51" using small unfolding N_def
      by (metis of_nat_le_iff of_nat_numeral of_nat_power)
    then have e1: "N / 2 ^ 52 \<le> 1/2" and e2: "max 1 N / 2 ^ 53 \<le> 1/4" by auto
    define E where "E = N / 2 ^ 52"
    have a': "\<bar>real k - y\<bar> \<le> 1/2 + E" and e: "E \<le> 1/2" using a e1 unfolding E_def by auto
    have r1: "\<bar>of_int (round_half_even y) - y\<bar> \<le> 1/2" by (rule round_half_even_error)
    have r2: "\<bar>of_int (round_half_even (fl y)) - fl y\<bar> \<le> 1/2" by (rule round_half_even_error)
    have r3: "\<bar>of_int (round y) - y\<bar> \<le> 1/2" by (rule of_int_round_abs_le)
    have f: "\<bar>fl y - y\<bar> \<le> 1/4" using fl_error_product [OF y0 yN] e2 by linarith
    have i: "real_of_int (int k) = real k" by simp
    have "\<bar>real_of_int (int k) - real_of_int (round_half_even y)\<bar> < 2"
      unfolding i using a' e r1 by linarith
    moreover have "\<bar>real_of_int (int k) - real_of_int (round_half_even (fl y))\<bar> < 2"
      unfolding i using a' e r2 f by linarith
    moreover have "\<bar>real_of_int (int k) - real_of_int (round y)\<bar> < 2"
      unfolding i using a' e r3 by linarith
    ultimately show ?thesis by (intro conjI int_near)
  qed
  have c: "acceptedNodes findLocation p nodes = acceptedNodes otherLocation p nodes"
    unfolding acceptedNodes_def by (rule projectionLoop_search)
  show ?thesis
    using a b c unfolding k_def y_def N_def by blast
qed

text \<open>
  For the float 0.1 and ten points the sixth point is the one accepted (in exact arithmetic
  it would be the fifth); of five points none is accepted, where \<open>p N\<close> rounds to 1 and the
  product computed in floats, one half, rounds to 0.
\<close>

theorem acceptedNodes_round_witness:
  "0 < tenth \<and> tenth \<le> 1
   \<and> length [10::nat, 11, 12, 13, 14, 15, 16, 17, 18, 19] \<le> 2 ^ 51
   \<and> \<bar>int (length (acceptedNodes (\<lambda>n::nat. if n = 14 then None else Some n)
          tenth [10, 11, 12, 13, 14, 15, 16, 17, 18, 19]))
        - round_half_even (tenth
            * real (length [10::nat, 11, 12, 13, 14, 15, 16, 17, 18, 19]))\<bar> \<le> 1
   \<and> acceptedNodes (\<lambda>n::nat. if n = 14 then None else Some n)
        tenth [10, 11, 12, 13, 14, 15, 16, 17, 18, 19] = [15]
   \<and> projectedNodes (\<lambda>n::nat. if n = 14 then None else Some n)
        tenth [10, 11, 12, 13, 14, 15, 16, 17, 18, 19] = [(15, 15)]"
  using acceptedNodes_round [of tenth
      "\<lambda>n::nat. if n = 14 then None else Some n" "[10, 11, 12, 13, 14, 15, 16, 17, 18, 19]"]
  by (simp add: tenth_def acceptedNodes_def projectedNodes_def Let_def fl_def ulp_def
      bit_length.simps round_half_even_def frac_def)

lemma acceptedNodes_tenth_of_five:
  "acceptedNodes findLocation tenth [a, b, c, d, e] = []
   \<and> round_half_even (tenth * 5) = 1 \<and> round_half_even (fl (tenth * 5)) = 0"
  by (simp add: tenth_def acceptedNodes_def Let_def fl_def ulp_def bit_length.simps
      round_half_even_def frac_def)

section \<open>Properties of the settings functions\<close>

lemma loadsList_unchanged:
  assumes "\<And>x f. x \<in> set xs \<Longrightarrow> loads hook x f = Return x f"
  shows "loadsList hook xs f = Return xs f"
  using assms by (induction xs arbitrary: f) simp_all

lemma loads_plain: "plain v \<Longrightarrow> loads hook v f = Return v f"
proof (induction v arbitrary: f)
  case (PList xs)
  have "loadsList hook xs f = Return xs f"
    using PList by (intro loadsList_unchanged) (auto simp: list_all_iff)
  then show ?case by simp
qed simp_all

lemma loadsItems_plain:
  "list_all (\<lambda>item. plain (snd item)) items \<Longrightarrow> loadsItems hook items f = Return items f"
  by (induction items arbitrary: f) (simp_all add: loads_plain)

lemma setHasRun_body: "body (setHasRun b step) = body step"
  by (simp add: setHasRun_def)

lemma loads_step:
  assumes "plainStep step"
  shows "loads decodeJSONFitterSteps (PDict (encodeSettingsJSONDict step)) f =
           Return (PStep (length (fitterSteps f)))
             (f\<lparr>fitterSteps := fitterSteps f @ [setHasRun False step]\<rparr>)"
proof (cases "body step")
  case FitterStepConfig
  then show ?thesis
    by (simp add: encodeSettingsJSONDict_def baseEncodeSettingsJSONDict_def dictUpdate_def
        decodeJSONFitterSteps_def addFitterStep_def setHasRun_def)
next
  case FitterStepFit
  then show ?thesis
    by (simp add: encodeSettingsJSONDict_def baseEncodeSettingsJSONDict_def dictUpdate_def
        decodeJSONFitterSteps_def addFitterStep_def setHasRun_def)
next
  case (FitterStepAlign a)
  have enc: "alignEncodeSettingsJSONDict a =
      [(''_FitterStepAlign'', PBool True), (''alignGroups'', alignGroups a),
       (''alignMarkers'', alignMarkers a), (''rotation'', rotation a), (''scale'', scale a),
       (''translation'', translation a)]"
    by (simp add: alignEncodeSettingsJSONDict_def baseEncodeSettingsJSONDict_def dictUpdate_def)
  have pl: "list_all (\<lambda>item. plain (snd item)) (alignEncodeSettingsJSONDict a)"
    using assms FitterStepAlign by (simp add: enc plainStep_def)
  have same: "dictUpdate [] (alignEncodeSettingsJSONDict a) = alignEncodeSettingsJSONDict a"
    by (simp add: enc dictUpdate_def)
  have dec: "alignDecodeSettingsJSONDict (alignEncodeSettingsJSONDict a) = a"
    by (simp add: alignDecodeSettingsJSONDict_def enc dictUpdate_def dictGet_def
        alignEncodeSettingsJSONDict_def baseEncodeSettingsJSONDict_def newAlignSettings_def)
  have hook: "decodeJSONFitterSteps f' (alignEncodeSettingsJSONDict a) =
      Return (PStep (length (fitterSteps f'))) (addFitterStep (FitterStepAlign a) f')" for f'
    unfolding decodeJSONFitterSteps_def dec by (simp add: enc)
  show ?thesis
    using FitterStepAlign
    by (simp add: encodeSettingsJSONDict_def loadsItems_plain [OF pl] same hook
        addFitterStep_def setHasRun_def)
qed

lemma loadsList_steps:
  assumes "list_all plainStep steps"
  shows "\<exists>refs. loadsList decodeJSONFitterSteps
             (map (\<lambda>step. PDict (encodeSettingsJSONDict step)) steps) f =
           Return refs (f\<lparr>fitterSteps := fitterSteps f @ map (setHasRun False) steps\<rparr>)"
  using assms
proof (induction steps arbitrary: f)
  case Nil
  then show ?case by simp
next
  case (Cons step steps)
  let ?f1 = "f\<lparr>fitterSteps := fitterSteps f @ [setHasRun False step]\<rparr>"
  have s1: "loads decodeJSONFitterSteps (PDict (encodeSettingsJSONDict step)) f =
      Return (PStep (length (fitterSteps f))) ?f1"
    using Cons.prems by (intro loads_step) simp
  obtain refs where r: "loadsList decodeJSONFitterSteps
             (map (\<lambda>step. PDict (encodeSettingsJSONDict step)) steps) ?f1 =
           Return refs (?f1\<lparr>fitterSteps := fitterSteps ?f1 @ map (setHasRun False) steps\<rparr>)"
    using Cons.IH [of ?f1] Cons.prems by auto
  have "loadsList decodeJSONFitterSteps
          (map (\<lambda>step. PDict (encodeSettingsJSONDict step)) (step # steps)) f =
        Return (PStep (length (fitterSteps f)) # refs)
          (?f1\<lparr>fitterSteps := fitterSteps ?f1 @ map (setHasRun False) steps\<rparr>)"
    by (simp only: list.map loadsList.simps s1 outcome.case r)
  then show ?case by simp
qed

text \<open>
  Claim C7. For every fitter whose first step is a Config step and whose settings hold no
  dictionaries, decoding the document that \<^verbatim>\<open>encodeSettingsJSON\<close> produces, with the step
  decoder, into any fitter succeeds and leaves that fitter with the four names and the
  diagnostic level of the encoded one and with its steps, in the same order and with the same
  settings each, none of them run; nothing else of the decoding fitter changes.
\<close>

theorem decode_encode_settings:
  assumes "fitterSteps f \<noteq> []" and "body (fitterSteps f ! 0) = FitterStepConfig"
    and "plainSettings f"
  shows "decodeSettingsJSON (encodeSettingsJSON f) decodeJSONFitterSteps g =
    Return () (g\<lparr>modelCoordinatesFieldName := modelCoordinatesFieldName f,
                 dataCoordinatesFieldName := dataCoordinatesFieldName f,
                 fibreFieldName := fibreFieldName f,
                 markerGroupName := markerGroupName f,
                 diagnosticLevel := diagnosticLevel f,
                 fitterSteps := map (setHasRun False) (fitterSteps f)\<rparr>)"
proof -
  let ?g0 = "g\<lparr>fitterSteps := []\<rparr>"
  let ?steps = "map (\<lambda>step. PDict (encodeSettingsJSONDict step)) (fitterSteps f)"
  let ?g1 = "g\<lparr>fitterSteps := map (setHasRun False) (fitterSteps f)\<rparr>"
  have pl: "plain (modelCoordinatesFieldName f)" "plain (dataCoordinatesFieldName f)"
      "plain (fibreFieldName f)" "plain (markerGroupName f)" "plain (diagnosticLevel f)"
      "list_all plainStep (fitterSteps f)"
    using assms(3) by (simp_all add: plainSettings_def)
  obtain refs where refs: "loadsList decodeJSONFitterSteps ?steps ?g0 = Return refs ?g1"
    using loadsList_steps [OF pl(6), of ?g0] by auto
  let ?items = "[(''modelCoordinatesField'', modelCoordinatesFieldName f),
            (''dataCoordinatesField'', dataCoordinatesFieldName f),
            (''fibreField'', fibreFieldName f),
            (''markerGroup'', markerGroupName f),
            (''diagnosticLevel'', diagnosticLevel f),
            (''fitterSteps'', PList refs)]"
  have items: "loadsItems decodeJSONFitterSteps
        [(''modelCoordinatesField'', modelCoordinatesFieldName f),
         (''dataCoordinatesField'', dataCoordinatesFieldName f),
         (''fibreField'', fibreFieldName f),
         (''markerGroup'', markerGroupName f),
         (''diagnosticLevel'', diagnosticLevel f),
         (''fitterSteps'', PList ?steps)] ?g0 = Return ?items ?g1"
    by (simp add: loads_plain pl refs)
  have same: "dictUpdate [] ?items = ?items"
    by (simp add: dictUpdate_def)
  have hook: "decodeJSONFitterSteps ?g1 ?items = Return (PDict ?items) ?g1"
    by (simp add: decodeJSONFitterSteps_def)
  have ld: "loads decodeJSONFitterSteps (encodeSettingsJSON f) ?g0 = Return (PDict ?items) ?g1"
    unfolding encodeSettingsJSON_def
    by (simp only: loads.simps items outcome.case same hook)
  have first: "body (setHasRun False (fitterSteps f ! 0)) = FitterStepConfig"
    using assms(2) by (simp add: setHasRun_body)
  show ?thesis
    unfolding decodeSettingsJSON_def Let_def ld outcome.case
    using first assms(1) by (simp add: dictGet_def)
qed

theorem decode_encode_settings_witness:
  "fitterSteps exampleFitter \<noteq> [] \<and> body (fitterSteps exampleFitter ! 0) = FitterStepConfig
   \<and> plainSettings exampleFitter
   \<and> decodeSettingsJSON (encodeSettingsJSON exampleFitter) decodeJSONFitterSteps newFitter =
       Return ()
         \<lparr>modelCoordinatesFieldName = PStr ''coordinates'', dataCoordinatesFieldName = PNone,
          fibreFieldName = PNone, markerGroupName = PStr ''marker'', diagnosticLevel = PNum 1,
          fitterSteps =
            [\<lparr>body = FitterStepConfig, hasRun = False\<rparr>,
             \<lparr>body = FitterStepAlign
                 \<lparr>alignGroups = PBool True, alignMarkers = PBool False,
                  rotation = PList [PNum 1, PNum 2, PNum 3], scale = PNum 2,
                  translation = PList [PNum 0, PNum 0, PNum 1]\<rparr>,
              hasRun = False\<rparr>,
             \<lparr>body = FitterStepFit, hasRun = False\<rparr>],
          fieldmodule = False, modelCoordinatesField = None, written = []\<rparr>"
proof -
  have h1: "fitterSteps exampleFitter \<noteq> []" by (simp add: exampleFitter_def)
  have h2: "body (fitterSteps exampleFitter ! 0) = FitterStepConfig"
    by (simp add: exampleFitter_def)
  have h3: "plainSettings exampleFitter"
    by (simp add: exampleFitter_def plainSettings_def plainStep_def)
  show ?thesis
    using decode_encode_settings [OF h1 h2 h3, of newFitter] h1 h2 h3
    by (simp add: exampleFitter_def newFitter_def setHasRun_def)
qed

lemma decodeJSONFitterSteps_appends:
  "\<exists>v more. decodeJSONFitterSteps f dct = Return v (f\<lparr>fitterSteps := fitterSteps f @ more\<rparr>)"
proof -
  have "f = f\<lparr>fitterSteps := fitterSteps f @ []\<rparr>" by simp
  then show ?thesis
    unfolding decodeJSONFitterSteps_def addFitterStep_def
    by (metis (full_types))
qed

lemma loadsList_appends:
  assumes "\<And>x f. x \<in> set xs \<Longrightarrow>
      \<exists>v more. loads decodeJSONFitterSteps x f = Return v (f\<lparr>fitterSteps := fitterSteps f @ more\<rparr>)"
  shows "\<exists>vs more. loadsList decodeJSONFitterSteps xs f =
           Return vs (f\<lparr>fitterSteps := fitterSteps f @ more\<rparr>)"
  using assms
proof (induction xs arbitrary: f)
  case Nil
  have "f = f\<lparr>fitterSteps := fitterSteps f @ []\<rparr>" by simp
  then show ?case by (metis loadsList.simps(1))
next
  case (Cons x xs)
  obtain v m1 where a: "loads decodeJSONFitterSteps x f
      = Return v (f\<lparr>fitterSteps := fitterSteps f @ m1\<rparr>)"
    using Cons.prems by (meson list.set_intros(1))
  let ?f1 = "f\<lparr>fitterSteps := fitterSteps f @ m1\<rparr>"
  obtain vs m2 where b: "loadsList decodeJSONFitterSteps xs ?f1
      = Return vs (?f1\<lparr>fitterSteps := fitterSteps ?f1 @ m2\<rparr>)"
    using Cons.IH [of ?f1] Cons.prems by (meson list.set_intros(2))
  have "loadsList decodeJSONFitterSteps (x # xs) f =
      Return (v # vs) (f\<lparr>fitterSteps := fitterSteps f @ (m1 @ m2)\<rparr>)"
    by (simp add: a b)
  then show ?case by blast
qed

lemma loadsItems_appends:
  assumes "\<And>x f. x \<in> snd ` set items \<Longrightarrow>
      \<exists>v more. loads decodeJSONFitterSteps x f = Return v (f\<lparr>fitterSteps := fitterSteps f @ more\<rparr>)"
  shows "\<exists>vs more. loadsItems decodeJSONFitterSteps items f =
           Return vs (f\<lparr>fitterSteps := fitterSteps f @ more\<rparr>)"
  using assms
proof (induction items arbitrary: f)
  case Nil
  have "f = f\<lparr>fitterSteps := fitterSteps f @ []\<rparr>" by simp
  then show ?case by (metis loadsItems.simps(1))
next
  case (Cons item items)
  obtain v m1 where a: "loads decodeJSONFitterSteps (snd item) f
      = Return v (f\<lparr>fitterSteps := fitterSteps f @ m1\<rparr>)"
    using Cons.prems [of "snd item" f] by auto
  let ?f1 = "f\<lparr>fitterSteps := fitterSteps f @ m1\<rparr>"
  have rest: "\<And>x f. x \<in> snd ` set items \<Longrightarrow>
      \<exists>v more. loads decodeJSONFitterSteps x f = Return v (f\<lparr>fitterSteps := fitterSteps f @ more\<rparr>)"
    using Cons.prems by auto
  obtain vs m2 where b: "loadsItems decodeJSONFitterSteps items ?f1
      = Return vs (?f1\<lparr>fitterSteps := fitterSteps ?f1 @ m2\<rparr>)"
    using Cons.IH [OF rest, of ?f1] by blast
  have "loadsItems decodeJSONFitterSteps (item # items) f =
      Return ((fst item, v) # vs) (f\<lparr>fitterSteps := fitterSteps f @ (m1 @ m2)\<rparr>)"
    by (simp add: a b)
  then show ?case by blast
qed

text \<open>The step decoder never raises and changes nothing of the fitter but its step list.\<close>

lemma loads_appends:
  "\<exists>v more. loads decodeJSONFitterSteps s f = Return v (f\<lparr>fitterSteps := fitterSteps f @ more\<rparr>)"
proof (induction s arbitrary: f)
  case (PList xs)
  obtain vs more where "loadsList decodeJSONFitterSteps xs f =
           Return vs (f\<lparr>fitterSteps := fitterSteps f @ more\<rparr>)"
    using loadsList_appends [of xs f] PList by blast
  then have "loads decodeJSONFitterSteps (PList xs) f =
           Return (PList vs) (f\<lparr>fitterSteps := fitterSteps f @ more\<rparr>)"
    by simp
  then show ?case by blast
next
  case (PDict items)
  have "\<And>x f. x \<in> snd ` set items \<Longrightarrow>
      \<exists>v more. loads decodeJSONFitterSteps x f = Return v (f\<lparr>fitterSteps := fitterSteps f @ more\<rparr>)"
    using PDict by (auto simp: image_iff)
  then obtain vs m1 where a: "loadsItems decodeJSONFitterSteps items f =
           Return vs (f\<lparr>fitterSteps := fitterSteps f @ m1\<rparr>)"
    using loadsItems_appends [of items f] by blast
  let ?f1 = "f\<lparr>fitterSteps := fitterSteps f @ m1\<rparr>"
  obtain v m2 where b: "decodeJSONFitterSteps ?f1 (dictUpdate [] vs)
      = Return v (?f1\<lparr>fitterSteps := fitterSteps ?f1 @ m2\<rparr>)"
    using decodeJSONFitterSteps_appends by blast
  have "loads decodeJSONFitterSteps (PDict items) f =
      Return v (f\<lparr>fitterSteps := fitterSteps f @ (m1 @ m2)\<rparr>)"
    by (simp add: a b)
  then show ?case by blast
next
  case PNone
  have "f = f\<lparr>fitterSteps := fitterSteps f @ []\<rparr>" by simp
  then show ?case by (metis loads.simps(3))
next
  case (PBool b)
  have "f = f\<lparr>fitterSteps := fitterSteps f @ []\<rparr>" by simp
  then show ?case by (metis loads.simps(4))
next
  case (PNum x)
  have "f = f\<lparr>fitterSteps := fitterSteps f @ []\<rparr>" by simp
  then show ?case by (metis loads.simps(5))
next
  case (PStr s)
  have "f = f\<lparr>fitterSteps := fitterSteps f @ []\<rparr>" by simp
  then show ?case by (metis loads.simps(6))
next
  case (PStep i)
  have "f = f\<lparr>fitterSteps := fitterSteps f @ []\<rparr>" by simp
  then show ?case by (metis loads.simps(7))
qed

text \<open>
  Claim C8, as amended. Whatever the decoder, once it has run over the document without
  raising, \<^verbatim>\<open>decodeSettingsJSON\<close> fails its assertion "Missing initial config step" exactly
  when the fitter's step list is then empty or its first element is not a Config step, and on
  that failure the step list is the one from before the call and every other attribute is as
  the decoder left it. With the step decoder, which never raises and changes only the step
  list, the fitter is on that failure exactly as it was before the call.
\<close>

theorem decodeSettingsJSON_missing_config:
  "(loads hook s (f\<lparr>fitterSteps := []\<rparr>) = Return settings f1 \<longrightarrow>
      (decodeSettingsJSON s hook f = Raise AssertionError (f1\<lparr>fitterSteps := fitterSteps f\<rparr>)
       \<longleftrightarrow> fitterSteps f1 = [] \<or> body (fitterSteps f1 ! 0) \<noteq> FitterStepConfig))
   \<and> (\<exists>settings' steps'.
         loads decodeJSONFitterSteps s (f\<lparr>fitterSteps := []\<rparr>)
           = Return settings' (f\<lparr>fitterSteps := steps'\<rparr>)
         \<and> (steps' = [] \<or> body (steps' ! 0) \<noteq> FitterStepConfig \<longrightarrow>
              decodeSettingsJSON s decodeJSONFitterSteps f = Raise AssertionError f))"
proof (intro conjI impI)
  assume ld: "loads hook s (f\<lparr>fitterSteps := []\<rparr>) = Return settings f1"
  show "decodeSettingsJSON s hook f = Raise AssertionError (f1\<lparr>fitterSteps := fitterSteps f\<rparr>)
       \<longleftrightarrow> fitterSteps f1 = [] \<or> body (fitterSteps f1 ! 0) \<noteq> FitterStepConfig"
    unfolding decodeSettingsJSON_def Let_def ld outcome.case
    by (auto split: pyval.splits option.splits)
next
  obtain v more where "loads decodeJSONFitterSteps s (f\<lparr>fitterSteps := []\<rparr>) =
      Return v ((f\<lparr>fitterSteps := []\<rparr>)\<lparr>fitterSteps := fitterSteps (f\<lparr>fitterSteps := []\<rparr>) @ more\<rparr>)"
    using loads_appends by blast
  then have ld: "loads decodeJSONFitterSteps s (f\<lparr>fitterSteps := []\<rparr>)
      = Return v (f\<lparr>fitterSteps := more\<rparr>)"
    by simp
  have "decodeSettingsJSON s decodeJSONFitterSteps f = Raise AssertionError f"
    if "more = [] \<or> body (more ! 0) \<noteq> FitterStepConfig"
    unfolding decodeSettingsJSON_def Let_def ld outcome.case using that by auto
  then show "\<exists>settings' steps'.
         loads decodeJSONFitterSteps s (f\<lparr>fitterSteps := []\<rparr>)
           = Return settings' (f\<lparr>fitterSteps := steps'\<rparr>)
         \<and> (steps' = [] \<or> body (steps' ! 0) \<noteq> FitterStepConfig \<longrightarrow>
              decodeSettingsJSON s decodeJSONFitterSteps f = Raise AssertionError f)"
    using ld by blast
qed

theorem decodeSettingsJSON_missing_config_witness:
  "loads decodeJSONFitterSteps settingsWithoutConfig (exampleFitter\<lparr>fitterSteps := []\<rparr>)
     = Return (PDict [(''modelCoordinatesField'', PStr ''x''), (''diagnosticLevel'', PNum 2),
                      (''fitterSteps'', PList [PStep 0])])
         (exampleFitter\<lparr>fitterSteps := [\<lparr>body = FitterStepFit, hasRun = False\<rparr>]\<rparr>)
   \<and> body ([\<lparr>body = FitterStepFit, hasRun = False\<rparr>] ! 0) \<noteq> FitterStepConfig
   \<and> decodeSettingsJSON settingsWithoutConfig decodeJSONFitterSteps exampleFitter
       = Raise AssertionError exampleFitter
   \<and> decodeSettingsJSON (PList []) decodeJSONFitterSteps exampleFitter
       = Raise AssertionError exampleFitter"
proof -
  have ld: "loads decodeJSONFitterSteps settingsWithoutConfig (exampleFitter\<lparr>fitterSteps := []\<rparr>)
     = Return (PDict [(''modelCoordinatesField'', PStr ''x''), (''diagnosticLevel'', PNum 2),
                      (''fitterSteps'', PList [PStep 0])])
         (exampleFitter\<lparr>fitterSteps := [\<lparr>body = FitterStepFit, hasRun = False\<rparr>]\<rparr>)"
    by (simp add: settingsWithoutConfig_def decodeJSONFitterSteps_def dictUpdate_def
        addFitterStep_def)
  have e: "decodeSettingsJSON (PList []) decodeJSONFitterSteps exampleFitter
       = Raise AssertionError exampleFitter"
    by (simp add: decodeSettingsJSON_def)
  show ?thesis
    using decodeSettingsJSON_missing_config [of decodeJSONFitterSteps settingsWithoutConfig
        exampleFitter _ "exampleFitter\<lparr>fitterSteps := [\<lparr>body = FitterStepFit, hasRun = False\<rparr>]\<rparr>"]
      ld e
    by simp
qed

text \<open>
  Claim C8 as stated fails: for a document with an initial Config step and no diagnostic level
  the decoded step list is not empty and starts with a Config step, yet
  \<^verbatim>\<open>decodeSettingsJSON\<close> fails, with a key error; the step list is then the decoded one, not
  the one from before the call, and the four names have been assigned.
\<close>

theorem decodeSettingsJSON_other_failure_counterexample:
  "decodeSettingsJSON settingsWithoutLevel decodeJSONFitterSteps exampleFitter
     = Raise KeyError
         (exampleFitter\<lparr>modelCoordinatesFieldName := PStr ''x'',
                         dataCoordinatesFieldName := PNone, fibreFieldName := PNone,
                         markerGroupName := PNone,
                         fitterSteps := [\<lparr>body = FitterStepConfig, hasRun = False\<rparr>]\<rparr>)
   \<and> body ([\<lparr>body = FitterStepConfig, hasRun = False\<rparr>] ! 0) = FitterStepConfig
   \<and> fitterSteps exampleFitter \<noteq> [\<lparr>body = FitterStepConfig, hasRun = False\<rparr>]
   \<and> modelCoordinatesFieldName exampleFitter \<noteq> PStr ''x''"
  by (simp add: decodeSettingsJSON_def settingsWithoutLevel_def decodeJSONFitterSteps_def
      dictUpdate_def addFitterStep_def dictGet_def exampleFitter_def)

text \<open>
  Claim C10 fails on the code. \<^verbatim>\<open>writeModel\<close> requests the export under the stored model
  coordinates field name prefixed with "fitted " and renames the field to that name for the
  write, but it restores with \<^verbatim>\<open>setName(self._modelCoordinatesFieldName)\<close>, the stored
  name, not the name the field had, and it does not look at the result of either renaming.
  When there is a field module, a model coordinates field and a stored name that is a string,
  the field's name after the call, whether the write succeeded or the assertion was raised, is
  the one that the two renamings leave. It is the name from before the call when the field was
  named by the stored name (and no other field had that name). When the field had another name,
  as it has after settings naming another field were decoded into a loaded fitter, it is left
  with the stored name; and when the stored name belongs to another field while the prefixed
  name is free, it is left with the prefixed name. The stored names, the diagnostic level and
  the steps are never changed.
\<close>

theorem writeModel_field_name:
  assumes "fieldmodule f" and "modelCoordinatesFieldName f = PStr name"
    and "modelCoordinatesField f = Some currentName"
  shows "writeModel otherFieldNames writeOK modelFileName f =
      (if writeOK then Return () else Raise AssertionError)
        (f\<lparr>modelCoordinatesField :=
             Some (setName otherFieldNames name
                    (setName otherFieldNames (''fitted '' @ name) currentName)),
           written := written f @
             [(modelFileName, [''fitted '' @ name],
               setName otherFieldNames (''fitted '' @ name) currentName)]\<rparr>)
    \<and> (currentName = name \<and> name \<notin> set otherFieldNames \<longrightarrow>
         modelCoordinatesField (stateOf (writeModel otherFieldNames writeOK modelFileName f))
           = Some currentName)
    \<and> (currentName \<noteq> name \<and> name \<notin> set otherFieldNames \<longrightarrow>
         modelCoordinatesField (stateOf (writeModel otherFieldNames writeOK modelFileName f))
           = Some name)
    \<and> (name \<in> set otherFieldNames \<and> ''fitted '' @ name \<notin> set otherFieldNames \<longrightarrow>
         modelCoordinatesField (stateOf (writeModel otherFieldNames writeOK modelFileName f))
           = Some (''fitted '' @ name))
    \<and> modelCoordinatesFieldName (stateOf (writeModel otherFieldNames writeOK modelFileName f))
         = modelCoordinatesFieldName f
    \<and> dataCoordinatesFieldName (stateOf (writeModel otherFieldNames writeOK modelFileName f))
         = dataCoordinatesFieldName f
    \<and> fibreFieldName (stateOf (writeModel otherFieldNames writeOK modelFileName f))
         = fibreFieldName f
    \<and> markerGroupName (stateOf (writeModel otherFieldNames writeOK modelFileName f))
         = markerGroupName f
    \<and> diagnosticLevel (stateOf (writeModel otherFieldNames writeOK modelFileName f))
         = diagnosticLevel f
    \<and> fitterSteps (stateOf (writeModel otherFieldNames writeOK modelFileName f))
         = fitterSteps f"
  using assms by (simp add: writeModel_def setName_def Let_def)

text \<open>
  The failing inputs. Decoding settings that name the model coordinates field \<open>x\<close> into the
  loaded example fitter stores that name and leaves the field object, named \<open>coordinates\<close>,
  as it is. \<^verbatim>\<open>writeModel\<close> then leaves the field with the name \<open>x\<close>; and with the name
  \<open>fitted x\<close> when another field of the region is named \<open>x\<close>. In the example fitter itself,
  where the stored name is the field's name, a region that already holds a field named
  \<open>fitted coordinates\<close> keeps the field from being renamed: the field's name is unchanged
  afterwards, but the write was requested for \<open>fitted coordinates\<close> while the model
  coordinates field was named \<open>coordinates\<close>.
\<close>

theorem writeModel_field_name_witness:
  "decodeSettingsJSON settingsOtherField decodeJSONFitterSteps exampleFitter
       = Return () exampleRenamed
   \<and> fieldmodule exampleRenamed \<and> modelCoordinatesFieldName exampleRenamed = PStr ''x''
   \<and> modelCoordinatesField exampleRenamed = Some ''coordinates''
   \<and> writeModel [] True ''fit1.exf'' exampleRenamed =
       Return () (exampleRenamed\<lparr>modelCoordinatesField := Some ''x'',
          written := [(''fit1.exf'', [''fitted x''], ''fitted x'')]\<rparr>)
   \<and> writeModel [''x''] True ''fit1.exf'' exampleRenamed =
       Return () (exampleRenamed\<lparr>modelCoordinatesField := Some ''fitted x'',
          written := [(''fit1.exf'', [''fitted x''], ''fitted x'')]\<rparr>)
   \<and> writeModel [''fitted coordinates''] False ''fit1.exf'' exampleFitter =
       Raise AssertionError (exampleFitter\<lparr>written :=
          [(''fit1.exf'', [''fitted coordinates''], ''coordinates'')]\<rparr>)"
proof -
  have d: "decodeSettingsJSON settingsOtherField decodeJSONFitterSteps exampleFitter
       = Return () exampleRenamed"
    by (simp add: exampleRenamed_def decodeSettingsJSON_def settingsOtherField_def
        decodeJSONFitterSteps_def dictUpdate_def addFitterStep_def dictGet_def exampleFitter_def)
  have h: "fieldmodule exampleRenamed" "modelCoordinatesFieldName exampleRenamed = PStr ''x''"
      "modelCoordinatesField exampleRenamed = Some ''coordinates''"
      "written exampleRenamed = []"
    by (simp_all add: exampleRenamed_def decodeSettingsJSON_def settingsOtherField_def
        decodeJSONFitterSteps_def dictUpdate_def addFitterStep_def dictGet_def exampleFitter_def)
  have e: "fieldmodule exampleFitter"
      "modelCoordinatesFieldName exampleFitter = PStr ''coordinates''"
      "modelCoordinatesField exampleFitter = Some ''coordinates''"
    by (simp_all add: exampleFitter_def)
  have w: "exampleFitter\<lparr>modelCoordinatesField := Some ''coordinates''\<rparr> = exampleFitter"
      "written exampleFitter = []"
    by (simp_all add: exampleFitter_def)
  show ?thesis
    using writeModel_field_name [OF h(1,2,3), of "[]" True "''fit1.exf''"]
      writeModel_field_name [OF h(1,2,3), of "[''x'']" True "''fit1.exf''"]
      writeModel_field_name [OF e, of "[''fitted coordinates'']" False "''fit1.exf''"]
      d h w
    by (simp add: setName_def)
qed

end
